theory Spec2Isabelle
  imports Main "HOL-Library.Multiset" "HOL-Library.Char_ord" "HOL-Library.List_Lexorder"
begin

section \<open>Domain errors (internal/domain/errors.go)\<close>

text \<open>
  A Go \<open>error\<close> value is either a \<open>*DomainError\<close> (kind, message, optional cause) or an
  error built by \<open>fmt.Errorf\<close>, which wraps a cause when its format has \<open>%w\<close>.
  Messages keep the literal part of the Go format string.
\<close>

datatype DomainErrorKind =
  DomainErrorValidation | DomainErrorNotFound | DomainErrorConflict | DomainErrorInternal

datatype error =
  DomainError DomainErrorKind string "error option"
| Errorf string "error option"

definition NewDomainError :: "DomainErrorKind \<Rightarrow> string \<Rightarrow> error option \<Rightarrow> error" where
  "NewDomainError kind message cause = DomainError kind message cause"

definition NewValidationError :: "string \<Rightarrow> error option \<Rightarrow> error" where
  "NewValidationError message cause = NewDomainError DomainErrorValidation message cause"

definition NewNotFoundError :: "string \<Rightarrow> error option \<Rightarrow> error" where
  "NewNotFoundError message cause = NewDomainError DomainErrorNotFound message cause"

definition NewConflictError :: "string \<Rightarrow> error option \<Rightarrow> error" where
  "NewConflictError message cause = NewDomainError DomainErrorConflict message cause"

text \<open>\<open>Unwrap\<close> of either error form gives the cause.\<close>

fun Unwrap :: "error \<Rightarrow> error option" where
  "Unwrap (DomainError k m c) = c"
| "Unwrap (Errorf m c) = c"

text \<open>
  \<open>errors.As(err, &domainErr)\<close>: the first \<open>*DomainError\<close> on the \<open>Unwrap\<close> chain, if any.
  \<open>errorKind\<close> is the \<open>Kind\<close> a caller reads off that value; \<open>chainKinds\<close> lists the kinds of
  every \<open>*DomainError\<close> on the chain, outermost first.
\<close>

fun errorsAs :: "error \<Rightarrow> error option" where
  "errorsAs (DomainError k m c) = Some (DomainError k m c)"
| "errorsAs (Errorf m None) = None"
| "errorsAs (Errorf m (Some e)) = errorsAs e"

fun errorKind :: "error \<Rightarrow> DomainErrorKind option" where
  "errorKind (DomainError k m c) = Some k"
| "errorKind (Errorf m None) = None"
| "errorKind (Errorf m (Some e)) = errorKind e"

fun chainKinds :: "error \<Rightarrow> DomainErrorKind list" where
  "chainKinds (DomainError k m None) = [k]"
| "chainKinds (DomainError k m (Some e)) = k # chainKinds e"
| "chainKinds (Errorf m None) = []"
| "chainKinds (Errorf m (Some e)) = chainKinds e"

section \<open>Pages (internal/domain/page_entity.go)\<close>

text \<open>
  Documents and the unassigned pool hold \<open>*Page\<close> pointers, and \<open>AssignToDocument\<close> and
  \<open>Unassign\<close> write through them. A pointer is an address; the store maps every address to
  the Page object it holds. \<open>DocumentID\<close> is \<open>None\<close> for Go's \<open>nil\<close>. \<open>PageNumber\<close> is only
  ever compared and printed, so it is an unbounded integer.
\<close>

type_synonym addr = nat

record Page =
  page_ID :: string
  page_SplitID :: string
  page_DocumentID :: "string option"
  page_PageNumber :: int
  page_URL :: string

type_synonym heap = "addr \<Rightarrow> Page"

definition Page_Valid :: "Page \<Rightarrow> error option" where
  "Page_Valid p =
     (if page_ID p = [] then Some (NewValidationError ''page id is required'' None)
      else if page_SplitID p = [] then Some (NewValidationError ''split id is required'' None)
      else if page_URL p = [] then Some (NewValidationError ''url is required'' None)
      else None)"

definition IsAssigned :: "Page \<Rightarrow> bool" where
  "IsAssigned p \<longleftrightarrow> page_DocumentID p \<noteq> None"

definition AssignToDocument :: "heap \<Rightarrow> addr \<Rightarrow> string \<Rightarrow> error + heap" where
  "AssignToDocument h a docID =
     (if IsAssigned (h a)
      then Inl (NewConflictError ''page is already assigned to a document'' None)
      else Inr (h(a := (h a)\<lparr>page_DocumentID := Some docID\<rparr>)))"

definition Unassign :: "heap \<Rightarrow> addr \<Rightarrow> heap" where
  "Unassign h a = h(a := (h a)\<lparr>page_DocumentID := None\<rparr>)"

text \<open>
  \<open>NewPage\<close> reads the page number with \<open>fmt.Sscanf(url, "page_%d.png", &n)\<close> and draws the ID
  from \<open>uuid.New()\<close>. Both are library calls: the scanner is the parameter \<open>scan\<close> (\<open>None\<close> when
  Sscanf returns an error) and the generated ID is the parameter \<open>newID\<close>.
\<close>

definition NewPage :: "(string \<Rightarrow> int option) \<Rightarrow> string \<Rightarrow> string \<Rightarrow> string \<Rightarrow> error + Page" where
  "NewPage scan newID splitID url =
     (case scan url of
        None \<Rightarrow> Inl (Errorf ''invalid page URL format'' (Some (Errorf ''input does not match format'' None)))
      | Some n \<Rightarrow>
          (let p = \<lparr>page_ID = newID, page_SplitID = splitID, page_DocumentID = None,
                    page_PageNumber = n, page_URL = url\<rparr>
           in case Page_Valid p of
                Some e \<Rightarrow> Inl (Errorf ''invalid page'' (Some e))
              | None \<Rightarrow> Inr p))"

section \<open>Documents (internal/domain/document_entity.go)\<close>

record Document =
  doc_ID :: string
  doc_SplitID :: string
  doc_Name :: string
  doc_Classification :: string
  doc_Filename :: string
  doc_ShortDescription :: string
  doc_Pages :: "addr list"
  doc_StartPage :: string
  doc_EndPage :: string

record DocumentMetadata =
  meta_Name :: "string option"
  meta_Classification :: "string option"
  meta_ShortDescription :: "string option"

text \<open>
  \<open>slices.SortFunc\<close> orders the pointers by \<open>PageNumber\<close>; it is not a stable sort, so the
  order it leaves among pages of equal number is the library's choice. The sort is therefore a
  parameter \<open>srt\<close> of every operation that reaches \<open>updatePageNumbers\<close>; \<open>sortFunc_spec\<close> is
  all that is known of it: the result is a rearrangement of the input, ascending in the key.
  On slices of at most 12 elements the library runs an insertion sort, which is
  \<open>insertionSort\<close> below.
\<close>

type_synonym sortFunc = "(addr \<Rightarrow> int) \<Rightarrow> addr list \<Rightarrow> addr list"

definition sortFunc_spec :: "sortFunc \<Rightarrow> bool" where
  "sortFunc_spec srt \<longleftrightarrow>
     (\<forall>key xs. mset (srt key xs) = mset xs \<and> sorted (map key (srt key xs)))"

definition insertionSort :: sortFunc where
  "insertionSort key xs = sort_key key xs"

definition updatePageNumbers :: "sortFunc \<Rightarrow> heap \<Rightarrow> Document \<Rightarrow> Document" where
  "updatePageNumbers srt h d =
     (let ps = srt (\<lambda>a. page_PageNumber (h a)) (doc_Pages d)
      in if ps \<noteq> []
         then d\<lparr>doc_Pages := ps, doc_StartPage := page_URL (h (hd ps)),
                doc_EndPage := page_URL (h (last ps))\<rparr>
         else d\<lparr>doc_Pages := ps, doc_StartPage := [], doc_EndPage := []\<rparr>)"

fun pagesValid :: "heap \<Rightarrow> addr list \<Rightarrow> error option" where
  "pagesValid h [] = None"
| "pagesValid h (a # as) =
     (case Page_Valid (h a) of
        Some e \<Rightarrow> Some (NewValidationError ''invalid page in document'' (Some e))
      | None \<Rightarrow> pagesValid h as)"

definition Document_Valid :: "heap \<Rightarrow> Document \<Rightarrow> error option" where
  "Document_Valid h d =
     (if doc_ID d = [] then Some (NewValidationError ''document ID is required'' None)
      else if doc_SplitID d = [] then Some (NewValidationError ''split ID is required'' None)
      else if doc_Name d = [] then Some (NewValidationError ''document name is required'' None)
      else if doc_Classification d = []
        then Some (NewValidationError ''document classification is required'' None)
      else if doc_Filename d = []
        then Some (NewValidationError ''document filename is required'' None)
      else if doc_Pages d = []
        then Some (NewValidationError ''document must have at least one page'' None)
      else pagesValid h (doc_Pages d))"

definition NewDocument ::
  "sortFunc \<Rightarrow> heap \<Rightarrow> string \<Rightarrow> string \<Rightarrow> string \<Rightarrow> string \<Rightarrow> string \<Rightarrow> string \<Rightarrow> addr list
     \<Rightarrow> error + Document" where
  "NewDocument srt h ident splitID name classification filename shortDescription pages =
     (let d = updatePageNumbers srt h
                \<lparr>doc_ID = ident, doc_SplitID = splitID, doc_Name = name,
                 doc_Classification = classification, doc_Filename = filename,
                 doc_ShortDescription = shortDescription, doc_Pages = pages,
                 doc_StartPage = [], doc_EndPage = []\<rparr>
      in case Document_Valid h d of
           Some e \<Rightarrow> Inl (Errorf ''invalid document'' (Some e))
         | None \<Rightarrow> Inr d)"

text \<open>
  \<open>AddPages\<close>: the loop assigns and appends page by page and returns at the first page that is
  already assigned, leaving the store and the page list as mutated so far; the result carries
  the store and the Document as they stand when the call returns, and the error (\<open>None\<close> for
  \<open>nil\<close>).
\<close>

fun AddPages_loop :: "heap \<Rightarrow> Document \<Rightarrow> addr list \<Rightarrow> heap \<times> Document \<times> error option" where
  "AddPages_loop h d [] = (h, d, None)"
| "AddPages_loop h d (newPage # pages) =
     (case AssignToDocument h newPage (doc_ID d) of
        Inl assignErr \<Rightarrow>
          (h, d, Some (NewValidationError ''failed to assign page to document'' (Some assignErr)))
      | Inr h' \<Rightarrow> AddPages_loop h' (d\<lparr>doc_Pages := doc_Pages d @ [newPage]\<rparr>) pages)"

definition AddPages ::
  "sortFunc \<Rightarrow> heap \<Rightarrow> Document \<Rightarrow> addr list \<Rightarrow> heap \<times> Document \<times> error option" where
  "AddPages srt h d pages =
     (case AddPages_loop h d pages of
        (h', d', Some e) \<Rightarrow> (h', d', Some e)
      | (h', d', None) \<Rightarrow> (h', updatePageNumbers srt h' d', None))"

text \<open>
  \<open>RemovePages\<close> returns the store, the Document, the removed pages and the error. The early
  return on an empty request and the NotFound return leave everything as it was.
\<close>

definition RemovePages ::
  "sortFunc \<Rightarrow> heap \<Rightarrow> Document \<Rightarrow> string list \<Rightarrow> heap \<times> Document \<times> addr list \<times> error option" where
  "RemovePages srt h d pageIDs =
     (if pageIDs = [] then (h, d, [], None)
      else
        (let removed = filter (\<lambda>a. page_ID (h a) \<in> set pageIDs) (doc_Pages d);
             remaining = filter (\<lambda>a. page_ID (h a) \<notin> set pageIDs) (doc_Pages d)
         in if removed = []
            then (h, d, [],
                  Some (NewNotFoundError ''none of the specified pages found in document'' None))
            else
              (let h' = foldl Unassign h removed
               in (h', updatePageNumbers srt h' (d\<lparr>doc_Pages := remaining\<rparr>), removed, None))))"

definition UpdateMetadata :: "Document \<Rightarrow> DocumentMetadata \<Rightarrow> Document" where
  "UpdateMetadata d metadata =
     (let d1 = (case meta_Name metadata of Some n \<Rightarrow> d\<lparr>doc_Name := n\<rparr> | None \<Rightarrow> d);
          d2 = (case meta_Classification metadata of
                  Some c \<Rightarrow> d1\<lparr>doc_Classification := c\<rparr> | None \<Rightarrow> d1)
      in case meta_ShortDescription metadata of
           Some s \<Rightarrow> d2\<lparr>doc_ShortDescription := s\<rparr> | None \<Rightarrow> d2)"

section \<open>The Split aggregate (internal/domain, split entity)\<close>

text \<open>
  \<open>Documents\<close> is a slice of Document values (\<open>[]Document\<close>), the unassigned pool a slice of
  page pointers. \<open>SplitStatus\<close> is a Go string type with two named constants. Times are
  integers; \<open>FinalizedAt\<close> is \<open>None\<close> for \<open>nil\<close>.
\<close>

type_synonym SplitStatus = string

definition SplitStatusDraft :: SplitStatus where
  "SplitStatusDraft = ''draft''"

definition SplitStatusFinalized :: SplitStatus where
  "SplitStatusFinalized = ''finalized''"

record Split =
  split_ID :: string
  split_ClientID :: string
  split_Status :: SplitStatus
  split_Documents :: "Document list"
  split_UnassignedPages :: "addr list"
  split_CreatedAt :: int
  split_UpdatedAt :: int
  split_FinalizedAt :: "int option"

fun docsValid :: "heap \<Rightarrow> Document list \<Rightarrow> error option" where
  "docsValid h [] = None"
| "docsValid h (doc # docs) =
     (case Document_Valid h doc of
        Some docErr \<Rightarrow> Some (Errorf ''invalid document in split'' (Some docErr))
      | None \<Rightarrow> docsValid h docs)"

definition Split_Valid :: "heap \<Rightarrow> Split \<Rightarrow> error option" where
  "Split_Valid h s =
     (if split_ID s = [] then Some (NewValidationError ''split ID is required'' None)
      else if split_ClientID s = [] then Some (NewValidationError ''client ID is required'' None)
      else docsValid h (split_Documents s))"

definition Finalize :: "heap \<Rightarrow> Split \<Rightarrow> int \<Rightarrow> Split \<times> error option" where
  "Finalize h s finalizedAt =
     (if split_Status s = SplitStatusFinalized
      then (s, Some (NewConflictError ''split already finalized'' None))
      else if split_UnassignedPages s \<noteq> []
      then (s, Some (NewValidationError ''cannot finalize split with unassigned pages'' None))
      else case Split_Valid h s of
             Some validErr \<Rightarrow> (s, Some (NewValidationError ''invalid split'' (Some validErr)))
           | None \<Rightarrow>
               (s\<lparr>split_Status := SplitStatusFinalized, split_FinalizedAt := Some finalizedAt\<rparr>,
                None))"

definition AddDocument :: "heap \<Rightarrow> Split \<Rightarrow> Document \<Rightarrow> Split \<times> error option" where
  "AddDocument h s doc =
     (if split_Status s = SplitStatusFinalized
      then (s, Some (NewConflictError ''cannot add document to finalized split'' None))
      else case Document_Valid h doc of
             Some err \<Rightarrow> (s, Some (NewValidationError ''invalid document'' (Some err)))
           | None \<Rightarrow>
               if list_ex (\<lambda>existingDoc. doc_ID existingDoc = doc_ID doc) (split_Documents s)
               then (s, Some (NewConflictError ''document with ID already exists'' None))
               else if list_ex (\<lambda>page. IsAssigned (h page)) (doc_Pages doc)
               then (s, Some (NewConflictError
                                ''cannot add document with already assigned pages'' None))
               else (s\<lparr>split_Documents := split_Documents s @ [doc]\<rparr>, None))"

text \<open>
  Index of the first and of the last element that satisfies a test. \<open>RemoveDocument\<close> and
  \<open>UpdateDocumentMetadata\<close> return from inside their loop at the first Document with the ID;
  the search loop of \<open>MovePages\<close> has no \<open>break\<close>, so it ends on the last one.
\<close>

fun findFirst :: "('a \<Rightarrow> bool) \<Rightarrow> 'a list \<Rightarrow> nat option" where
  "findFirst P [] = None"
| "findFirst P (x # xs) =
     (if P x then Some 0 else map_option Suc (findFirst P xs))"

fun findLast :: "('a \<Rightarrow> bool) \<Rightarrow> 'a list \<Rightarrow> nat option" where
  "findLast P [] = None"
| "findLast P (x # xs) =
     (case findLast P xs of
        Some i \<Rightarrow> Some (Suc i)
      | None \<Rightarrow> if P x then Some 0 else None)"

text \<open>
  \<open>RemoveDocument\<close> ranges over copies of the Documents: \<open>RemovePages\<close> runs on the copy, whose
  new page list is dropped with it, while \<open>Unassign\<close> reaches the shared Page objects.
\<close>

definition RemoveDocument ::
  "sortFunc \<Rightarrow> heap \<Rightarrow> Split \<Rightarrow> string \<Rightarrow> heap \<times> Split \<times> error option" where
  "RemoveDocument srt h s docID =
     (if split_Status s = SplitStatusFinalized
      then (h, s, Some (NewConflictError ''cannot remove document from finalized split'' None))
      else case findFirst (\<lambda>doc. doc_ID doc = docID) (split_Documents s) of
             None \<Rightarrow> (h, s, Some (NewNotFoundError ''document not found in split'' None))
           | Some i \<Rightarrow>
               (let doc = split_Documents s ! i;
                    pageIDs = map (\<lambda>p. page_ID (h p)) (doc_Pages doc)
                in case RemovePages srt h doc pageIDs of
                     (h', doc', removedPages, Some err) \<Rightarrow>
                       (case errorsAs err of
                          Some domainErr \<Rightarrow> (h', s, Some err)
                        | None \<Rightarrow>
                            (h', s, Some (NewValidationError
                                            ''failed to remove pages from document'' (Some err))))
                   | (h', doc', removedPages, None) \<Rightarrow>
                       (h',
                        s\<lparr>split_Documents :=
                            take i (split_Documents s) @ drop (Suc i) (split_Documents s),
                          split_UnassignedPages := split_UnassignedPages s @ removedPages\<rparr>,
                        None)))"

text \<open>
  \<open>MovePages\<close> holds pointers into the Documents slice, so the source is written back before
  the target is read: with equal IDs both pointers are the same element.
\<close>

definition MovePages ::
  "sortFunc \<Rightarrow> heap \<Rightarrow> Split \<Rightarrow> string \<Rightarrow> string \<Rightarrow> string list \<Rightarrow> heap \<times> Split \<times> error option" where
  "MovePages srt h s fromDocID toDocID pageIDs =
     (if split_Status s = SplitStatusFinalized
      then (h, s, Some (NewConflictError ''cannot move pages in finalized split'' None))
      else case findLast (\<lambda>doc. doc_ID doc = fromDocID) (split_Documents s) of
             None \<Rightarrow> (h, s, Some (NewNotFoundError ''source document not found'' None))
           | Some i \<Rightarrow>
          (case findLast (\<lambda>doc. doc_ID doc = toDocID) (split_Documents s) of
             None \<Rightarrow> (h, s, Some (NewNotFoundError ''target document not found'' None))
           | Some j \<Rightarrow>
               if list_ex (\<lambda>pid. list_ex (\<lambda>p. page_ID (h p) = pid)
                                    (doc_Pages (split_Documents s ! j))) pageIDs
               then (h, s, Some (NewValidationError
                       ''cannot move pages that are already assigned to target document'' None))
               else
                 (case RemovePages srt h (split_Documents s ! i) pageIDs of
                    (h1, fromDoc, removedPages, Some err) \<Rightarrow>
                      (h1, s, Some (NewValidationError
                                      ''failed to remove pages from source document'' (Some err)))
                  | (h1, fromDoc, removedPages, None) \<Rightarrow>
                      (let docs1 = (split_Documents s)[i := fromDoc]
                       in case AddPages srt h1 (docs1 ! j) removedPages of
                            (h2, toDoc, Some err) \<Rightarrow>
                              (h2, s\<lparr>split_Documents := docs1[j := toDoc]\<rparr>,
                               Some (NewValidationError
                                       ''failed to add pages to target document'' (Some err)))
                          | (h2, toDoc, None) \<Rightarrow>
                              (h2, s\<lparr>split_Documents := docs1[j := toDoc]\<rparr>, None)))))"

definition UpdateDocumentMetadata ::
  "Split \<Rightarrow> string \<Rightarrow> DocumentMetadata \<Rightarrow> Split \<times> error option" where
  "UpdateDocumentMetadata s docID meta =
     (if split_Status s = SplitStatusFinalized
      then (s, Some (Errorf ''cannot update document in finalized split'' None))
      else case findFirst (\<lambda>doc. doc_ID doc = docID) (split_Documents s) of
             Some i \<Rightarrow>
               (s\<lparr>split_Documents :=
                    (split_Documents s)[i := UpdateMetadata (split_Documents s ! i) meta]\<rparr>,
                None)
           | None \<Rightarrow> (s, Some (Errorf ''document not found in split'' None)))"


text \<open>
  \<open>NewSplit\<close> works on the struct that \<open>json.Unmarshal\<close> decoded (a decode error returns
  before anything is built). Every \<open>NewPage\<close> allocates a Page object: the pages of the new
  Split are stored at the addresses from \<open>n\<close> on, and the page stored at address \<open>a\<close> draws the
  ID \<open>uuid a\<close>. The two \<open>time.Now()\<close> readings are parameters.
\<close>

record DocumentData =
  data_ID :: string
  data_Classification :: string
  data_Filename :: string
  data_Name :: string
  data_ShortDescription :: string
  data_PageURLs :: "string list"

record SplitData =
  data_SplitID :: string
  data_ClientID :: string
  data_Status :: SplitStatus
  data_Documents :: "DocumentData list"

fun newPages ::
  "(string \<Rightarrow> int option) \<Rightarrow> (addr \<Rightarrow> string) \<Rightarrow> string \<Rightarrow> heap \<Rightarrow> addr \<Rightarrow> string list
     \<Rightarrow> error + (heap \<times> addr \<times> addr list)" where
  "newPages scan uuid splitID h n [] = Inr (h, n, [])"
| "newPages scan uuid splitID h n (url # urls) =
     (case NewPage scan (uuid n) splitID url of
        Inl err \<Rightarrow> Inl (Errorf ''failed to create page from URL'' (Some err))
      | Inr page \<Rightarrow>
          (case newPages scan uuid splitID (h(n := page)) (Suc n) urls of
             Inl err \<Rightarrow> Inl err
           | Inr (h', n', pages) \<Rightarrow> Inr (h', n', n # pages)))"

fun newDocuments ::
  "sortFunc \<Rightarrow> (string \<Rightarrow> int option) \<Rightarrow> (addr \<Rightarrow> string) \<Rightarrow> string \<Rightarrow> heap \<Rightarrow> addr
     \<Rightarrow> DocumentData list \<Rightarrow> error + (heap \<times> addr \<times> Document list)" where
  "newDocuments srt scan uuid splitID h n [] = Inr (h, n, [])"
| "newDocuments srt scan uuid splitID h n (docData # rest) =
     (case newPages scan uuid splitID h n (data_PageURLs docData) of
        Inl err \<Rightarrow> Inl err
      | Inr (h1, n1, pages) \<Rightarrow>
          (case NewDocument srt h1 (data_ID docData) splitID (data_Name docData)
                  (data_Classification docData) (data_Filename docData)
                  (data_ShortDescription docData) pages of
             Inl err \<Rightarrow> Inl (Errorf ''failed to create document'' (Some err))
           | Inr doc \<Rightarrow>
               (case newDocuments srt scan uuid splitID h1 n1 rest of
                  Inl err \<Rightarrow> Inl err
                | Inr (h2, n2, docs) \<Rightarrow> Inr (h2, n2, doc # docs))))"

definition NewSplit ::
  "sortFunc \<Rightarrow> (string \<Rightarrow> int option) \<Rightarrow> (addr \<Rightarrow> string) \<Rightarrow> int \<Rightarrow> int \<Rightarrow> heap \<Rightarrow> addr
     \<Rightarrow> SplitData \<Rightarrow> error + (heap \<times> Split)" where
  "NewSplit srt scan uuid createdAt updatedAt h n splitData =
     (case newDocuments srt scan uuid (data_SplitID splitData) h n (data_Documents splitData) of
        Inl err \<Rightarrow> Inl err
      | Inr (h', n', docs) \<Rightarrow>
          (let split = \<lparr>split_ID = data_SplitID splitData,
                        split_ClientID = data_ClientID splitData,
                        split_Status = data_Status splitData,
                        split_Documents = docs,
                        split_UnassignedPages = [],
                        split_CreatedAt = createdAt,
                        split_UpdatedAt = updatedAt,
                        split_FinalizedAt = None\<rparr>
           in case Split_Valid h' split of
                Some err \<Rightarrow> Inl (Errorf ''invalid split'' (Some err))
              | None \<Rightarrow> Inr (h', split)))"

subsection \<open>Sequences of mutations\<close>

text \<open>
  One call of a mutation method, and the store and Split it leaves behind whether or not it
  returned an error; \<open>run\<close> lists the states after every call of a sequence.
\<close>

datatype Mutation =
  CallAddDocument Document
| CallRemoveDocument string
| CallMovePages string string "string list"
| CallUpdateDocumentMetadata string DocumentMetadata
| CallFinalize int

fun applyMutation :: "sortFunc \<Rightarrow> heap \<times> Split \<Rightarrow> Mutation \<Rightarrow> heap \<times> Split" where
  "applyMutation srt (h, s) (CallAddDocument doc) = (h, fst (AddDocument h s doc))"
| "applyMutation srt (h, s) (CallRemoveDocument docID) =
     (case RemoveDocument srt h s docID of (h', s', err) \<Rightarrow> (h', s'))"
| "applyMutation srt (h, s) (CallMovePages fromDocID toDocID pageIDs) =
     (case MovePages srt h s fromDocID toDocID pageIDs of (h', s', err) \<Rightarrow> (h', s'))"
| "applyMutation srt (h, s) (CallUpdateDocumentMetadata docID meta) =
     (h, fst (UpdateDocumentMetadata s docID meta))"
| "applyMutation srt (h, s) (CallFinalize finalizedAt) = (h, fst (Finalize h s finalizedAt))"

fun run :: "sortFunc \<Rightarrow> heap \<times> Split \<Rightarrow> Mutation list \<Rightarrow> (heap \<times> Split) list" where
  "run srt st [] = []"
| "run srt st (m # ms) = applyMutation srt st m # run srt (applyMutation srt st m) ms"

text \<open>
  The places of a Split where a page can be: every Document's page list, then the unassigned
  pool. Single ownership: no Page ID occurs twice among them.
\<close>

definition allPages :: "Split \<Rightarrow> addr list" where
  "allPages s = concat (map doc_Pages (split_Documents s)) @ split_UnassignedPages s"

definition singleOwnership :: "heap \<Rightarrow> Split \<Rightarrow> bool" where
  "singleOwnership h s \<longleftrightarrow> distinct (map (\<lambda>a. page_ID (h a)) (allPages s))"

text \<open>
  A Document brings new pages when its page IDs are pairwise different and none of them is in
  the Split yet; a sequence of calls is \<open>addsNewPages\<close> when every \<open>AddDocument\<close> in it does so
  at the state in which it is called.
\<close>

definition bringsNewPages :: "heap \<Rightarrow> Split \<Rightarrow> Document \<Rightarrow> bool" where
  "bringsNewPages h s doc \<longleftrightarrow>
     distinct (map (\<lambda>a. page_ID (h a)) (doc_Pages doc)) \<and>
     list_all (\<lambda>a. page_ID (h a) \<notin> set (map (\<lambda>b. page_ID (h b)) (allPages s))) (doc_Pages doc)"

fun addsNewPages :: "sortFunc \<Rightarrow> heap \<times> Split \<Rightarrow> Mutation list \<Rightarrow> bool" where
  "addsNewPages srt st [] = True"
| "addsNewPages srt st (CallAddDocument doc # ms) =
     (bringsNewPages (fst st) (snd st) doc \<and>
      addsNewPages srt (applyMutation srt st (CallAddDocument doc)) ms)"
| "addsNewPages srt st (m # ms) = addsNewPages srt (applyMutation srt st m) ms"

section \<open>The SQL repository (internal/infrastructure/db/repositories/splits)\<close>

text \<open>
  The three tables of the schema, each a list of rows in rowid order: an insert appends, an
  update keeps the row where it is. The statements of \<open>Save\<close> bind Go strings and integers,
  so no column of a row is NULL except \<open>document_id\<close>, and within one transaction on a schema
  without enforced foreign keys no statement fails: \<open>Save\<close> is a function from table contents
  to table contents.

  \<open>pages.page_number\<close> is declared \<open>TEXT\<close>: the integer bound by \<open>Save\<close> is stored as its decimal
  text, and \<open>ORDER BY page_number\<close> compares these texts byte by byte. A row keeps the integer
  and \<open>sqlText\<close> gives the text SQLite orders by; \<open>Scan\<close> into the Go \<open>int\<close> reads the integer
  back. SQL leaves the order among rows with equal sort keys open; the model keeps them in
  table order.
\<close>

record SplitRow =
  sr_id :: string
  sr_client_id :: string
  sr_status :: string
  sr_created_at :: int
  sr_updated_at :: int

record DocumentRow =
  dr_id :: string
  dr_split_id :: string
  dr_name :: string
  dr_classification :: string
  dr_filename :: string
  dr_short_description :: string
  dr_start_page :: string
  dr_end_page :: string

record PageRow =
  pr_id :: string
  pr_split_id :: string
  pr_document_id :: "string option"
  pr_page_number :: int
  pr_url :: string

record DB =
  db_splits :: "SplitRow list"
  db_documents :: "DocumentRow list"
  db_pages :: "PageRow list"

fun natText :: "nat \<Rightarrow> string" where
  "natText n =
     (if n < 10 then [char_of (48 + n)]
      else natText (n div 10) @ [char_of (48 + n mod 10)])"

definition sqlText :: "int \<Rightarrow> string" where
  "sqlText i = (if i < 0 then CHR ''-'' # natText (nat (- i)) else natText (nat i))"

text \<open>\<open>INSERT ... ON CONFLICT(id) DO UPDATE SET ...\<close>, with the columns each statement sets.\<close>

definition upsertSplit :: "SplitRow \<Rightarrow> SplitRow list \<Rightarrow> SplitRow list" where
  "upsertSplit new rows =
     (if list_ex (\<lambda>r. sr_id r = sr_id new) rows
      then map (\<lambda>r. if sr_id r = sr_id new
                     then r\<lparr>sr_client_id := sr_client_id new, sr_status := sr_status new,
                            sr_updated_at := sr_updated_at new\<rparr>
                     else r) rows
      else rows @ [new])"

definition upsertDocument :: "DocumentRow \<Rightarrow> DocumentRow list \<Rightarrow> DocumentRow list" where
  "upsertDocument new rows =
     (if list_ex (\<lambda>r. dr_id r = dr_id new) rows
      then map (\<lambda>r. if dr_id r = dr_id new
                     then r\<lparr>dr_split_id := dr_split_id new, dr_name := dr_name new,
                            dr_classification := dr_classification new,
                            dr_filename := dr_filename new,
                            dr_short_description := dr_short_description new,
                            dr_start_page := dr_start_page new,
                            dr_end_page := dr_end_page new\<rparr>
                     else r) rows
      else rows @ [new])"

definition upsertPage :: "PageRow \<Rightarrow> PageRow list \<Rightarrow> PageRow list" where
  "upsertPage new rows =
     (if list_ex (\<lambda>r. pr_id r = pr_id new) rows
      then map (\<lambda>r. if pr_id r = pr_id new
                     then r\<lparr>pr_split_id := pr_split_id new,
                            pr_document_id := pr_document_id new,
                            pr_page_number := pr_page_number new, pr_url := pr_url new\<rparr>
                     else r) rows
      else rows @ [new])"

text \<open>
  The two \<open>DELETE\<close> statements run for a stale document, and the one run for a stale page.
\<close>

definition deleteDocument :: "DB \<Rightarrow> string \<Rightarrow> DB" where
  "deleteDocument db ident =
     db\<lparr>db_documents := filter (\<lambda>r. dr_id r \<noteq> ident) (db_documents db),
        db_pages := filter (\<lambda>r. pr_document_id r \<noteq> Some ident) (db_pages db)\<rparr>"

definition deletePage :: "DB \<Rightarrow> string \<Rightarrow> DB" where
  "deletePage db ident = db\<lparr>db_pages := filter (\<lambda>r. pr_id r \<noteq> ident) (db_pages db)\<rparr>"

text \<open>
  The values the page statements bind: the columns come from the Page object, except
  \<open>document_id\<close>, for which \<open>Save\<close> binds the ID of the Document it is iterating over, or
  \<open>NULL\<close> for the unassigned pool. The document statement binds the Document's fields.
\<close>

definition pageRow :: "heap \<Rightarrow> string option \<Rightarrow> addr \<Rightarrow> PageRow" where
  "pageRow h documentID page =
     \<lparr>pr_id = page_ID (h page), pr_split_id = page_SplitID (h page),
      pr_document_id = documentID,
      pr_page_number = page_PageNumber (h page), pr_url = page_URL (h page)\<rparr>"

definition documentRow :: "Document \<Rightarrow> DocumentRow" where
  "documentRow doc =
     \<lparr>dr_id = doc_ID doc, dr_split_id = doc_SplitID doc, dr_name = doc_Name doc,
      dr_classification = doc_Classification doc, dr_filename = doc_Filename doc,
      dr_short_description = doc_ShortDescription doc,
      dr_start_page = doc_StartPage doc, dr_end_page = doc_EndPage doc\<rparr>"

definition savePage :: "heap \<Rightarrow> string option \<Rightarrow> DB \<Rightarrow> addr \<Rightarrow> DB" where
  "savePage h documentID db page =
     db\<lparr>db_pages := upsertPage (pageRow h documentID page) (db_pages db)\<rparr>"

definition saveDocument :: "heap \<Rightarrow> DB \<Rightarrow> Document \<Rightarrow> DB" where
  "saveDocument h db doc =
     foldl (savePage h (Some (doc_ID doc)))
       (db\<lparr>db_documents := upsertDocument (documentRow doc) (db_documents db)\<rparr>)
       (doc_Pages doc)"

definition Save :: "heap \<Rightarrow> Split \<Rightarrow> DB \<Rightarrow> DB" where
  "Save h split db =
     (let db1 = db\<lparr>db_splits :=
                     upsertSplit \<lparr>sr_id = split_ID split, sr_client_id = split_ClientID split,
                                  sr_status = split_Status split,
                                  sr_created_at = split_CreatedAt split,
                                  sr_updated_at = split_UpdatedAt split\<rparr>
                       (db_splits db)\<rparr>;
          docIDs = map doc_ID (split_Documents split);
          toDeleteDocIDs =
            filter (\<lambda>ident. ident \<notin> set docIDs)
              (map dr_id (filter (\<lambda>r. dr_split_id r = split_ID split) (db_documents db1)));
          db2 = foldl deleteDocument db1 toDeleteDocIDs;
          pageIDs = map (\<lambda>a. page_ID (h a)) (allPages split);
          toDeletePageIDs =
            filter (\<lambda>ident. ident \<notin> set pageIDs)
              (map pr_id (filter (\<lambda>r. pr_split_id r = split_ID split) (db_pages db2)));
          db3 = foldl deletePage db2 toDeletePageIDs;
          db4 = foldl (saveDocument h) db3 (split_Documents split)
      in foldl (savePage h None) db4 (split_UnassignedPages split))"

text \<open>
  Names for the parts of \<open>Save\<close>: the IDs its two deletion loops collect, the page table
  between them, and the page rows it then writes, in statement order.
\<close>

definition toDeleteDocIDs :: "Split \<Rightarrow> DB \<Rightarrow> string list" where
  "toDeleteDocIDs split db =
     filter (\<lambda>ident. ident \<notin> set (map doc_ID (split_Documents split)))
       (map dr_id (filter (\<lambda>r. dr_split_id r = split_ID split) (db_documents db)))"

definition pagesAfterDocumentDelete :: "Split \<Rightarrow> DB \<Rightarrow> PageRow list" where
  "pagesAfterDocumentDelete split db =
     filter (\<lambda>r. \<forall>x\<in>set (toDeleteDocIDs split db). pr_document_id r \<noteq> Some x) (db_pages db)"

definition toDeletePageIDs :: "heap \<Rightarrow> Split \<Rightarrow> DB \<Rightarrow> string list" where
  "toDeletePageIDs h split db =
     filter (\<lambda>ident. ident \<notin> set (map (\<lambda>a. page_ID (h a)) (allPages split)))
       (map pr_id (filter (\<lambda>r. pr_split_id r = split_ID split)
                     (pagesAfterDocumentDelete split db)))"

definition pagesWritten :: "heap \<Rightarrow> Split \<Rightarrow> PageRow list" where
  "pagesWritten h split =
     concat (map (\<lambda>doc. map (pageRow h (Some (doc_ID doc))) (doc_Pages doc))
               (split_Documents split))
     @ map (pageRow h None) (split_UnassignedPages split)"

text \<open>
  Loading allocates a fresh Page object per row; the queries of \<open>getPages\<close> and
  \<open>getUnassignedPages\<close> do not select \<open>document_id\<close>, so \<open>DocumentID\<close> stays \<open>nil\<close>.
\<close>

definition pageOfRow :: "PageRow \<Rightarrow> Page" where
  "pageOfRow r =
     \<lparr>page_ID = pr_id r, page_SplitID = pr_split_id r, page_DocumentID = None,
      page_PageNumber = pr_page_number r, page_URL = pr_url r\<rparr>"

fun scanPages :: "heap \<Rightarrow> addr \<Rightarrow> PageRow list \<Rightarrow> heap \<times> addr \<times> addr list" where
  "scanPages h n [] = (h, n, [])"
| "scanPages h n (r # rows) =
     (case scanPages (h(n := pageOfRow r)) (Suc n) rows of
        (h', n', pages) \<Rightarrow> (h', n', n # pages))"

text \<open>The three \<open>SELECT\<close> statements of loading, with their \<open>WHERE\<close> and \<open>ORDER BY\<close>.\<close>

definition selectPages :: "DB \<Rightarrow> string \<Rightarrow> PageRow list" where
  "selectPages db documentID =
     sort_key (\<lambda>r. sqlText (pr_page_number r))
       (filter (\<lambda>r. pr_document_id r = Some documentID) (db_pages db))"

definition selectUnassignedPages :: "DB \<Rightarrow> string \<Rightarrow> PageRow list" where
  "selectUnassignedPages db splitID =
     sort_key (\<lambda>r. sqlText (pr_page_number r))
       (filter (\<lambda>r. pr_split_id r = splitID \<and> pr_document_id r = None) (db_pages db))"

definition selectDocuments :: "DB \<Rightarrow> string \<Rightarrow> DocumentRow list" where
  "selectDocuments db splitID =
     sort_key dr_start_page (filter (\<lambda>r. dr_split_id r = splitID) (db_documents db))"

definition getPages :: "DB \<Rightarrow> heap \<Rightarrow> addr \<Rightarrow> string \<Rightarrow> heap \<times> addr \<times> addr list" where
  "getPages db h n documentID = scanPages h n (selectPages db documentID)"

definition getUnassignedPages :: "DB \<Rightarrow> heap \<Rightarrow> addr \<Rightarrow> string \<Rightarrow> heap \<times> addr \<times> addr list" where
  "getUnassignedPages db h n splitID = scanPages h n (selectUnassignedPages db splitID)"

fun scanDocuments ::
  "DB \<Rightarrow> heap \<Rightarrow> addr \<Rightarrow> DocumentRow list \<Rightarrow> heap \<times> addr \<times> Document list" where
  "scanDocuments db h n [] = (h, n, [])"
| "scanDocuments db h n (r # rows) =
     (case getPages db h n (dr_id r) of
        (h1, n1, pages) \<Rightarrow>
          (case scanDocuments db h1 n1 rows of
             (h2, n2, documents) \<Rightarrow>
               (h2, n2,
                \<lparr>doc_ID = dr_id r, doc_SplitID = dr_split_id r, doc_Name = dr_name r,
                 doc_Classification = dr_classification r, doc_Filename = dr_filename r,
                 doc_ShortDescription = dr_short_description r, doc_Pages = pages,
                 doc_StartPage = dr_start_page r, doc_EndPage = dr_end_page r\<rparr> # documents)))"

definition getDocuments :: "DB \<Rightarrow> heap \<Rightarrow> addr \<Rightarrow> string \<Rightarrow> heap \<times> addr \<times> Document list" where
  "getDocuments db h n splitID = scanDocuments db h n (selectDocuments db splitID)"

definition Get :: "DB \<Rightarrow> heap \<Rightarrow> addr \<Rightarrow> string \<Rightarrow> heap \<times> addr \<times> Split option" where
  "Get db h n ident =
     (case find (\<lambda>r. sr_id r = ident) (db_splits db) of
        None \<Rightarrow> (h, n, None)
      | Some row \<Rightarrow>
          (case getDocuments db h n ident of
             (h1, n1, documents) \<Rightarrow>
               (case getUnassignedPages db h1 n1 ident of
                  (h2, n2, unassignedPages) \<Rightarrow>
                    (h2, n2,
                     Some \<lparr>split_ID = sr_id row, split_ClientID = sr_client_id row,
                           split_Status = sr_status row, split_Documents = documents,
                           split_UnassignedPages = unassignedPages,
                           split_CreatedAt = sr_created_at row,
                           split_UpdatedAt = sr_updated_at row,
                           split_FinalizedAt = None\<rparr>))))"


section \<open>Example values\<close>

text \<open>
  The Split of the specification's concrete scenario, decoded and as \<open>NewSplit\<close> builds it, with
  a scanner that knows three page URLs and generated IDs \<open>u\<close>, \<open>uu\<close>, \<open>uuu\<close>, ...
\<close>

definition scanExample :: "string \<Rightarrow> int option" where
  "scanExample url =
     (if url = ''page_1.png'' then Some 1
      else if url = ''page_2.png'' then Some 2
      else if url = ''page_10.png'' then Some 10
      else None)"

definition uuidExample :: "addr \<Rightarrow> string" where
  "uuidExample a = replicate (Suc a) CHR ''u''"

definition noPage :: Page where
  "noPage = \<lparr>page_ID = [], page_SplitID = [], page_DocumentID = None, page_PageNumber = 0, page_URL = []\<rparr>"

definition exampleData :: SplitData where
  "exampleData =
     \<lparr>data_SplitID = ''s1'', data_ClientID = ''c1'', data_Status = ''draft'',
      data_Documents =
        [\<lparr>data_ID = ''d1'', data_Classification = ''W-2'', data_Filename = ''w2.pdf'',
          data_Name = ''W2'', data_ShortDescription = [],
          data_PageURLs = [''page_1.png'', ''page_2.png'']\<rparr>]\<rparr>"

definition exampleHeap :: heap where
  "exampleHeap =
     (\<lambda>a. noPage)
       (0 := \<lparr>page_ID = ''u'', page_SplitID = ''s1'', page_DocumentID = None,
              page_PageNumber = 1, page_URL = ''page_1.png''\<rparr>,
        1 := \<lparr>page_ID = ''uu'', page_SplitID = ''s1'', page_DocumentID = None,
              page_PageNumber = 2, page_URL = ''page_2.png''\<rparr>)"

definition exampleDocument :: Document where
  "exampleDocument =
     \<lparr>doc_ID = ''d1'', doc_SplitID = ''s1'', doc_Name = ''W2'', doc_Classification = ''W-2'',
      doc_Filename = ''w2.pdf'', doc_ShortDescription = [], doc_Pages = [0, 1],
      doc_StartPage = ''page_1.png'', doc_EndPage = ''page_2.png''\<rparr>"

definition exampleSplit :: Split where
  "exampleSplit =
     \<lparr>split_ID = ''s1'', split_ClientID = ''c1'', split_Status = ''draft'',
      split_Documents = [exampleDocument], split_UnassignedPages = [],
      split_CreatedAt = 0, split_UpdatedAt = 0, split_FinalizedAt = None\<rparr>"

text \<open>
  A Split with two Documents, a store in which the third page is already assigned, and a
  Document without pages.
\<close>

definition twoDocHeap :: heap where
  "twoDocHeap =
     (\<lambda>a. noPage)
       (0 := \<lparr>page_ID = ''u'', page_SplitID = ''s1'', page_DocumentID = None,
              page_PageNumber = 1, page_URL = ''page_1.png''\<rparr>,
        1 := \<lparr>page_ID = ''uu'', page_SplitID = ''s1'', page_DocumentID = None,
              page_PageNumber = 2, page_URL = ''page_2.png''\<rparr>,
        2 := \<lparr>page_ID = ''uuu'', page_SplitID = ''s1'', page_DocumentID = None,
              page_PageNumber = 10, page_URL = ''page_10.png''\<rparr>)"

definition docA :: Document where
  "docA =
     \<lparr>doc_ID = ''dA'', doc_SplitID = ''s1'', doc_Name = ''W2'', doc_Classification = ''W-2'',
      doc_Filename = ''w2.pdf'', doc_ShortDescription = [], doc_Pages = [0, 1],
      doc_StartPage = ''page_1.png'', doc_EndPage = ''page_2.png''\<rparr>"

definition docB :: Document where
  "docB =
     \<lparr>doc_ID = ''dB'', doc_SplitID = ''s1'', doc_Name = ''Invoice'',
      doc_Classification = ''Invoice'', doc_Filename = ''inv.pdf'', doc_ShortDescription = [],
      doc_Pages = [2], doc_StartPage = ''page_10.png'', doc_EndPage = ''page_10.png''\<rparr>"

definition twoDocSplit :: Split where
  "twoDocSplit =
     \<lparr>split_ID = ''s1'', split_ClientID = ''c1'', split_Status = ''draft'',
      split_Documents = [docA, docB], split_UnassignedPages = [],
      split_CreatedAt = 0, split_UpdatedAt = 0, split_FinalizedAt = None\<rparr>"

definition assignedHeap :: heap where
  "assignedHeap = twoDocHeap(2 := (twoDocHeap 2)\<lparr>page_DocumentID := Some ''dB''\<rparr>)"

definition docC :: Document where
  "docC =
     \<lparr>doc_ID = ''dC'', doc_SplitID = ''s1'', doc_Name = ''Form'', doc_Classification = ''1099'',
      doc_Filename = ''f.pdf'', doc_ShortDescription = [], doc_Pages = [],
      doc_StartPage = [], doc_EndPage = []\<rparr>"

text \<open>
  A store that already holds one more page (at address 5), the store after \<open>NewSplit\<close> has
  built the example Split in it, a Document made of that spare page, a Document that takes the
  first page of the example Split again, and a sequence of calls.
\<close>

definition spareHeap :: heap where
  "spareHeap =
     (\<lambda>a. noPage)
       (5 := \<lparr>page_ID = ''x5'', page_SplitID = ''s1'', page_DocumentID = None,
              page_PageNumber = 10, page_URL = ''page_10.png''\<rparr>)"

definition loadedHeap :: heap where
  "loadedHeap =
     spareHeap
       (0 := \<lparr>page_ID = ''u'', page_SplitID = ''s1'', page_DocumentID = None,
              page_PageNumber = 1, page_URL = ''page_1.png''\<rparr>,
        1 := \<lparr>page_ID = ''uu'', page_SplitID = ''s1'', page_DocumentID = None,
              page_PageNumber = 2, page_URL = ''page_2.png''\<rparr>)"

definition docN :: Document where
  "docN =
     \<lparr>doc_ID = ''dN'', doc_SplitID = ''s1'', doc_Name = ''Invoice'',
      doc_Classification = ''Invoice'', doc_Filename = ''inv.pdf'', doc_ShortDescription = [],
      doc_Pages = [5], doc_StartPage = ''page_10.png'', doc_EndPage = ''page_10.png''\<rparr>"

definition sharingDoc :: Document where
  "sharingDoc =
     \<lparr>doc_ID = ''d2'', doc_SplitID = ''s1'', doc_Name = ''Copy'',
      doc_Classification = ''W-2'', doc_Filename = ''copy.pdf'', doc_ShortDescription = [],
      doc_Pages = [0], doc_StartPage = ''page_1.png'', doc_EndPage = ''page_1.png''\<rparr>"

definition exampleCalls :: "Mutation list" where
  "exampleCalls =
     [CallAddDocument docN,
      CallMovePages ''d1'' ''dN'' [''u''],
      CallUpdateDocumentMetadata ''dN''
        \<lparr>meta_Name = Some ''Bill'', meta_Classification = None, meta_ShortDescription = None\<rparr>,
      CallRemoveDocument ''d1'',
      CallFinalize 9]"

text \<open>
  What a page row and a loaded Page share with the Page object saved: every field but
  \<open>DocumentID\<close>.
\<close>

definition pageData :: "Page \<Rightarrow> string \<times> string \<times> int \<times> string" where
  "pageData p = (page_ID p, page_SplitID p, page_PageNumber p, page_URL p)"


text \<open>
  A Document as \<open>updatePageNumbers\<close> leaves it when no two of its pages have the same page
  number: pages in strictly ascending page-number order, \<open>StartPage\<close> and \<open>EndPage\<close> the URLs
  of the first and the last page, both empty when there is no page.
\<close>

definition pagesInOrder :: "heap \<Rightarrow> Document \<Rightarrow> bool" where
  "pagesInOrder h d \<longleftrightarrow>
     sorted_wrt (<) (map (\<lambda>a. page_PageNumber (h a)) (doc_Pages d)) \<and>
     doc_StartPage d = (if doc_Pages d \<noteq> [] then page_URL (h (hd (doc_Pages d))) else []) \<and>
     doc_EndPage d = (if doc_Pages d \<noteq> [] then page_URL (h (last (doc_Pages d))) else [])"


text \<open>
  The two-Document Split with the second Document as a struct literal without range bounds
  (as the service's \<open>CreateDocument\<close> builds one), and with two pages of the first Document
  sharing page number 1.
\<close>

definition staleSplit :: Split where
  "staleSplit =
     twoDocSplit\<lparr>split_Documents := [docA, docB\<lparr>doc_StartPage := [], doc_EndPage := []\<rparr>]\<rparr>"

definition tieHeap :: heap where
  "tieHeap =
     twoDocHeap
       (1 := \<lparr>page_ID = ''uu'', page_SplitID = ''s1'', page_DocumentID = None,
              page_PageNumber = 1, page_URL = ''page_01.png''\<rparr>)"

definition tieSplit :: Split where
  "tieSplit =
     twoDocSplit\<lparr>split_Documents := [docA\<lparr>doc_EndPage := ''page_01.png''\<rparr>, docB]\<rparr>"

text \<open>
  The empty database, and the tables after the two-Document Split has been saved into it.
\<close>

definition emptyDB :: DB where
  "emptyDB = \<lparr>db_splits = [], db_documents = [], db_pages = []\<rparr>"

definition twoDocDB :: DB where
  "twoDocDB =
     \<lparr>db_splits =
        [\<lparr>sr_id = ''s1'', sr_client_id = ''c1'', sr_status = ''draft'',
          sr_created_at = 0, sr_updated_at = 0\<rparr>],
      db_documents =
        [\<lparr>dr_id = ''dA'', dr_split_id = ''s1'', dr_name = ''W2'',
          dr_classification = ''W-2'', dr_filename = ''w2.pdf'',
          dr_short_description = [], dr_start_page = ''page_1.png'',
          dr_end_page = ''page_2.png''\<rparr>,
         \<lparr>dr_id = ''dB'', dr_split_id = ''s1'', dr_name = ''Invoice'',
          dr_classification = ''Invoice'', dr_filename = ''inv.pdf'',
          dr_short_description = [], dr_start_page = ''page_10.png'',
          dr_end_page = ''page_10.png''\<rparr>],
      db_pages =
        [\<lparr>pr_id = ''u'', pr_split_id = ''s1'', pr_document_id = Some ''dA'',
          pr_page_number = 1, pr_url = ''page_1.png''\<rparr>,
         \<lparr>pr_id = ''uu'', pr_split_id = ''s1'', pr_document_id = Some ''dA'',
          pr_page_number = 2, pr_url = ''page_2.png''\<rparr>,
         \<lparr>pr_id = ''uuu'', pr_split_id = ''s1'', pr_document_id = Some ''dB'',
          pr_page_number = 10, pr_url = ''page_10.png''\<rparr>]\<rparr>"

section \<open>Properties\<close>

subsection \<open>Auxiliary facts\<close>

lemma NewSplit_example:
  "NewSplit insertionSort scanExample uuidExample 0 0 (\<lambda>a. noPage) 0 exampleData
     = Inr (exampleHeap, exampleSplit)"
  by (simp add: NewSplit_def exampleData_def NewDocument_def NewPage_def scanExample_def uuidExample_def
     Page_Valid_def Document_Valid_def updatePageNumbers_def insertionSort_def Split_Valid_def Let_def
     exampleHeap_def exampleSplit_def exampleDocument_def)

lemma findFirst_None_iff: "findFirst P xs = None \<longleftrightarrow> (\<forall>x\<in>set xs. \<not> P x)"
  by (induction xs) auto

lemma findFirst_append:
  "\<forall>x\<in>set pre. \<not> P x \<Longrightarrow> P d \<Longrightarrow> findFirst P (pre @ d # post) = Some (length pre)"
  by (induction pre) auto

lemma findFirst_SomeD:
  "findFirst P xs = Some i \<Longrightarrow> i < length xs \<and> P (xs ! i) \<and> (\<forall>x\<in>set (take i xs). \<not> P x)"
proof (induction xs arbitrary: i)
  case Nil then show ?case by simp
next
  case (Cons x xs)
  then show ?case by (cases "P x") (auto)
qed

lemma foldl_Unassign_apply:
  "foldl Unassign h as a = (if a \<in> set as then (h a)\<lparr>page_DocumentID := None\<rparr> else h a)"
  by (induction as arbitrary: h) (auto simp: Unassign_def)

lemma filter_own_ids: "filter (\<lambda>a. page_ID (h a) \<in> set (map (\<lambda>p. page_ID (h p)) as)) as = as"
  by (induction as) auto

lemma RemovePages_all:
  "RemovePages srt h d (map (\<lambda>p. page_ID (h p)) (doc_Pages d)) = (h', d', removed, err) \<Longrightarrow>
   h' = foldl Unassign h (doc_Pages d) \<and> removed = doc_Pages d \<and> err = None"
  by (cases "doc_Pages d = []") (auto simp: RemovePages_def Let_def filter_own_ids simp del: set_map)


subsection \<open>Removing a Document\<close>

text \<open>
  C9. On a Split that is not finalized, \<open>RemoveDocument docID\<close> returns a NotFound-kind error
  and changes nothing when no Document has the ID. When one has, the call succeeds for the
  first such Document \<open>d\<close>: the Document list loses \<open>d\<close>, the unassigned pool gains the pages
  of \<open>d\<close> at its end, in their order, and in the store exactly the pages of \<open>d\<close> have their
  \<open>DocumentID\<close> cleared.
\<close>

theorem RemoveDocument_spec:
  assumes "split_Status s \<noteq> SplitStatusFinalized"
  shows "((\<forall>d\<in>set (split_Documents s). doc_ID d \<noteq> docID) \<longrightarrow>
            (\<exists>e. RemoveDocument srt h s docID = (h, s, Some e) \<and>
                 errorKind e = Some DomainErrorNotFound)) \<and>
         ((\<exists>d\<in>set (split_Documents s). doc_ID d = docID) \<longrightarrow>
            (\<exists>pre d post h'.
               split_Documents s = pre @ d # post \<and> doc_ID d = docID \<and>
               (\<forall>x\<in>set pre. doc_ID x \<noteq> docID) \<and>
               RemoveDocument srt h s docID =
                 (h', s\<lparr>split_Documents := pre @ post,
                        split_UnassignedPages := split_UnassignedPages s @ doc_Pages d\<rparr>, None) \<and>
               (\<forall>a. h' a = (if a \<in> set (doc_Pages d)
                             then (h a)\<lparr>page_DocumentID := None\<rparr> else h a))))"
proof (intro conjI impI)
  assume "\<forall>d\<in>set (split_Documents s). doc_ID d \<noteq> docID"
  then have "findFirst (\<lambda>doc. doc_ID doc = docID) (split_Documents s) = None"
    by (simp add: findFirst_None_iff)
  with assms show "\<exists>e. RemoveDocument srt h s docID = (h, s, Some e) \<and>
                 errorKind e = Some DomainErrorNotFound"
    by (simp add: RemoveDocument_def NewNotFoundError_def NewDomainError_def)
next
  assume "\<exists>d\<in>set (split_Documents s). doc_ID d = docID"
  then obtain i where i: "findFirst (\<lambda>doc. doc_ID doc = docID) (split_Documents s) = Some i"
    using findFirst_None_iff[of "\<lambda>doc. doc_ID doc = docID" "split_Documents s"] by auto
  let ?docs = "split_Documents s"
  from findFirst_SomeD[OF i] have il: "i < length ?docs" and idd: "doc_ID (?docs ! i) = docID"
    and pre: "\<forall>x\<in>set (take i ?docs). doc_ID x \<noteq> docID" by auto
  have split: "?docs = take i ?docs @ (?docs ! i) # drop (Suc i) ?docs"
    using il by (simp add: id_take_nth_drop)
  obtain h' d' removed err where rp:
    "RemovePages srt h (?docs ! i) (map (\<lambda>p. page_ID (h p)) (doc_Pages (?docs ! i))) = (h', d', removed, err)"
    by (metis prod_cases4)
  from RemovePages_all[OF rp] have h': "h' = foldl Unassign h (doc_Pages (?docs ! i))"
    and rem: "removed = doc_Pages (?docs ! i)" and err: "err = None" by auto
  have res: "RemoveDocument srt h s docID =
      (h', s\<lparr>split_Documents := take i ?docs @ drop (Suc i) ?docs,
             split_UnassignedPages := split_UnassignedPages s @ doc_Pages (?docs ! i)\<rparr>, None)"
    using assms i rp rem err by (simp add: RemoveDocument_def Let_def)
  show "\<exists>pre d post h'.
               split_Documents s = pre @ d # post \<and> doc_ID d = docID \<and>
               (\<forall>x\<in>set pre. doc_ID x \<noteq> docID) \<and>
               RemoveDocument srt h s docID =
                 (h', s\<lparr>split_Documents := pre @ post,
                        split_UnassignedPages := split_UnassignedPages s @ doc_Pages d\<rparr>, None) \<and>
               (\<forall>a. h' a = (if a \<in> set (doc_Pages d)
                             then (h a)\<lparr>page_DocumentID := None\<rparr> else h a))"
    apply (rule exI[of _ "take i ?docs"], rule exI[of _ "?docs ! i"],
           rule exI[of _ "drop (Suc i) ?docs"], rule exI[of _ h'])
    using split idd pre res h' by (simp add: foldl_Unassign_apply)
qed


theorem RemoveDocument_spec_witness:
  "split_Status exampleSplit \<noteq> SplitStatusFinalized \<and>
   (\<exists>e. RemoveDocument insertionSort exampleHeap exampleSplit ''d9'' =
           (exampleHeap, exampleSplit, Some e) \<and> errorKind e = Some DomainErrorNotFound) \<and>
   (\<exists>h'. RemoveDocument insertionSort exampleHeap exampleSplit ''d1'' =
            (h', exampleSplit\<lparr>split_Documents := [], split_UnassignedPages := [0, 1]\<rparr>, None) \<and>
          page_DocumentID (h' 0) = None \<and> page_DocumentID (h' 1) = None)"
proof -
  have draft: "split_Status exampleSplit \<noteq> SplitStatusFinalized"
    by (simp add: exampleSplit_def SplitStatusFinalized_def)
  have absent: "\<forall>d\<in>set (split_Documents exampleSplit). doc_ID d \<noteq> ''d9''"
    by (simp add: exampleSplit_def exampleDocument_def)
  have present: "\<exists>d\<in>set (split_Documents exampleSplit). doc_ID d = ''d1''"
    by (simp add: exampleSplit_def exampleDocument_def)
  from RemoveDocument_spec[OF draft, of "''d9''" insertionSort exampleHeap] absent
  have nf: "\<exists>e. RemoveDocument insertionSort exampleHeap exampleSplit ''d9'' =
           (exampleHeap, exampleSplit, Some e) \<and> errorKind e = Some DomainErrorNotFound"
    by blast
  from RemoveDocument_spec[OF draft, of "''d1''" insertionSort exampleHeap] present
  obtain pre d post h' where
    docs: "split_Documents exampleSplit = pre @ d # post" and
    pre: "\<forall>x\<in>set pre. doc_ID x \<noteq> ''d1''" and
    res: "RemoveDocument insertionSort exampleHeap exampleSplit ''d1'' =
            (h', exampleSplit\<lparr>split_Documents := pre @ post,
               split_UnassignedPages := split_UnassignedPages exampleSplit @ doc_Pages d\<rparr>, None)" and
    h': "\<forall>a. h' a = (if a \<in> set (doc_Pages d)
                      then (exampleHeap a)\<lparr>page_DocumentID := None\<rparr> else exampleHeap a)"
    by blast
  from docs pre have "pre = [] \<and> d = exampleDocument \<and> post = []"
    by (cases pre) (auto simp: exampleSplit_def exampleDocument_def)
  with res h' have "RemoveDocument insertionSort exampleHeap exampleSplit ''d1'' =
            (h', exampleSplit\<lparr>split_Documents := [], split_UnassignedPages := [0, 1]\<rparr>, None) \<and>
          page_DocumentID (h' 0) = None \<and> page_DocumentID (h' 1) = None"
    by (simp add: exampleSplit_def exampleDocument_def)
  with draft nf show ?thesis by blast
qed


subsection \<open>Finalize\<close>

text \<open>
  C2. \<open>Finalize\<close> returns an error whenever the unassigned pool is not empty. On a Split that
  is not yet finalized, has an empty pool and passes \<open>Valid\<close>, it returns no error and leaves
  the status \<open>finalized\<close> and \<open>FinalizedAt\<close> set to the given time. After a call that
  returned no error, any further call returns a Conflict-kind error.
\<close>

theorem Finalize_gate:
  "(split_UnassignedPages s \<noteq> [] \<longrightarrow> snd (Finalize h s t) \<noteq> None) \<and>
   (split_Status s \<noteq> SplitStatusFinalized \<and> split_UnassignedPages s = [] \<and>
    Split_Valid h s = None \<longrightarrow>
      snd (Finalize h s t) = None \<and>
      split_Status (fst (Finalize h s t)) = SplitStatusFinalized \<and>
      split_FinalizedAt (fst (Finalize h s t)) = Some t) \<and>
   (snd (Finalize h s t) = None \<longrightarrow>
      (\<exists>e. snd (Finalize h' (fst (Finalize h s t)) t') = Some e \<and>
           errorKind e = Some DomainErrorConflict))"
  by (auto simp: Finalize_def NewConflictError_def NewDomainError_def split: option.splits)

theorem Finalize_gate_witness:
  "split_UnassignedPages (exampleSplit\<lparr>split_UnassignedPages := [1]\<rparr>) \<noteq> [] \<and>
   snd (Finalize exampleHeap (exampleSplit\<lparr>split_UnassignedPages := [1]\<rparr>) 7) \<noteq> None \<and>
   split_Status exampleSplit \<noteq> SplitStatusFinalized \<and>
   split_UnassignedPages exampleSplit = [] \<and>
   Split_Valid exampleHeap exampleSplit = None \<and>
   snd (Finalize exampleHeap exampleSplit 7) = None \<and>
   split_Status (fst (Finalize exampleHeap exampleSplit 7)) = SplitStatusFinalized \<and>
   split_FinalizedAt (fst (Finalize exampleHeap exampleSplit 7)) = Some 7 \<and>
   (\<exists>e. snd (Finalize exampleHeap (fst (Finalize exampleHeap exampleSplit 7)) 8) = Some e \<and>
        errorKind e = Some DomainErrorConflict)"
proof -
  have a: "split_UnassignedPages (exampleSplit\<lparr>split_UnassignedPages := [1]\<rparr>) \<noteq> []"
    by simp
  have b: "split_Status exampleSplit \<noteq> SplitStatusFinalized \<and>
           split_UnassignedPages exampleSplit = [] \<and> Split_Valid exampleHeap exampleSplit = None"
    by (simp add: exampleSplit_def exampleDocument_def exampleHeap_def SplitStatusFinalized_def
          Split_Valid_def Document_Valid_def Page_Valid_def)
  from Finalize_gate[of "exampleSplit\<lparr>split_UnassignedPages := [1]\<rparr>" exampleHeap 7] a
  have c: "snd (Finalize exampleHeap (exampleSplit\<lparr>split_UnassignedPages := [1]\<rparr>) 7) \<noteq> None"
    by blast
  from Finalize_gate[of exampleSplit exampleHeap 7 exampleHeap 8] b
  have d: "snd (Finalize exampleHeap exampleSplit 7) = None \<and>
      split_Status (fst (Finalize exampleHeap exampleSplit 7)) = SplitStatusFinalized \<and>
      split_FinalizedAt (fst (Finalize exampleHeap exampleSplit 7)) = Some 7 \<and>
      (\<exists>e. snd (Finalize exampleHeap (fst (Finalize exampleHeap exampleSplit 7)) 8) = Some e \<and>
        errorKind e = Some DomainErrorConflict)"
    by blast
  from a b c d show ?thesis by blast
qed


subsection \<open>UpdateDocumentMetadata on a finalized Split\<close>

text \<open>
  C6. On the example Split with status \<open>finalized\<close>, \<open>UpdateDocumentMetadata\<close> fails with the
  error built by \<open>fmt.Errorf\<close>: no \<open>*DomainError\<close> is on its chain, so \<open>errors.As\<close> finds none
  and the error has no kind, where \<open>AddDocument\<close>, \<open>RemoveDocument\<close>, \<open>MovePages\<close> and
  \<open>Finalize\<close> return \<open>NewConflictError\<close>.
\<close>

theorem UpdateDocumentMetadata_finalized_no_kind:
  "split_Status (exampleSplit\<lparr>split_Status := SplitStatusFinalized\<rparr>) = SplitStatusFinalized \<and>
   UpdateDocumentMetadata (exampleSplit\<lparr>split_Status := SplitStatusFinalized\<rparr>) ''d1''
       \<lparr>meta_Name = Some ''X'', meta_Classification = None, meta_ShortDescription = None\<rparr>
     = (exampleSplit\<lparr>split_Status := SplitStatusFinalized\<rparr>,
        Some (Errorf ''cannot update document in finalized split'' None)) \<and>
   errorKind (Errorf ''cannot update document in finalized split'' None) = None \<and>
   errorsAs (Errorf ''cannot update document in finalized split'' None) = None \<and>
   chainKinds (Errorf ''cannot update document in finalized split'' None) = []"
  by (simp add: UpdateDocumentMetadata_def)

subsection \<open>AddPages stops at the first assigned page\<close>


lemma findLast_SomeD:
  "findLast P xs = Some i \<Longrightarrow> i < length xs \<and> P (xs ! i)"
  by (induction xs arbitrary: i) (auto split: option.splits if_splits)

lemma AddPages_loop_stops:
  assumes "distinct pre" "\<forall>a\<in>set pre. \<not> IsAssigned (h a)" "IsAssigned (h q)"
  shows "AddPages_loop h d (pre @ q # post) =
           (\<lambda>x. if x \<in> set pre then (h x)\<lparr>page_DocumentID := Some (doc_ID d)\<rparr> else h x,
            d\<lparr>doc_Pages := doc_Pages d @ pre\<rparr>,
            Some (NewValidationError ''failed to assign page to document''
                    (Some (NewConflictError ''page is already assigned to a document'' None))))"
  using assms
proof (induction pre arbitrary: h d)
  case Nil
  then show ?case by (simp add: AssignToDocument_def)
next
  case (Cons a pre)
  let ?h1 = "h(a := (h a)\<lparr>page_DocumentID := Some (doc_ID d)\<rparr>)"
  let ?d1 = "d\<lparr>doc_Pages := doc_Pages d @ [a]\<rparr>"
  from Cons.prems have a: "\<not> IsAssigned (h a)" and an: "a \<notin> set pre" and qa: "q \<noteq> a" by auto
  have "AddPages_loop h d ((a # pre) @ q # post) = AddPages_loop ?h1 ?d1 (pre @ q # post)"
    using a by (simp add: AssignToDocument_def)
  also have "\<dots> = (\<lambda>x. if x \<in> set pre then (?h1 x)\<lparr>page_DocumentID := Some (doc_ID ?d1)\<rparr> else ?h1 x,
            ?d1\<lparr>doc_Pages := doc_Pages ?d1 @ pre\<rparr>,
            Some (NewValidationError ''failed to assign page to document''
                    (Some (NewConflictError ''page is already assigned to a document'' None))))"
    using Cons.prems an qa by (intro Cons.IH) auto
  also have "(\<lambda>x. if x \<in> set pre then (?h1 x)\<lparr>page_DocumentID := Some (doc_ID ?d1)\<rparr> else ?h1 x)
      = (\<lambda>x. if x \<in> set (a # pre) then (h x)\<lparr>page_DocumentID := Some (doc_ID d)\<rparr> else h x)"
    using an by (auto simp: fun_eq_iff)
  finally show ?case by simp
qed

text \<open>
  C8 (as amended). Let the page at position \<open>i\<close> of the incoming list be already assigned,
  all pages before it unassigned, and the pages before it pairwise different Page objects.
  Then \<open>AddPages\<close> returns a Validation-kind error (wrapping the Conflict of
  \<open>AssignToDocument\<close>), the pages before position \<open>i\<close> stay appended to the page list in
  their order, and exactly they are now assigned to the Document; nothing is rolled back, and
  the list is not re-sorted.
\<close>

theorem AddPages_partial:
  assumes "i < length pages" "IsAssigned (h (pages ! i))"
      and "\<forall>j<i. \<not> IsAssigned (h (pages ! j))"
      and "distinct (take i pages)"
  shows "AddPages srt h d pages =
           (\<lambda>x. if x \<in> set (take i pages)
                 then (h x)\<lparr>page_DocumentID := Some (doc_ID d)\<rparr> else h x,
            d\<lparr>doc_Pages := doc_Pages d @ take i pages\<rparr>,
            Some (NewValidationError ''failed to assign page to document''
                    (Some (NewConflictError ''page is already assigned to a document'' None)))) \<and>
         errorKind (NewValidationError ''failed to assign page to document''
                    (Some (NewConflictError ''page is already assigned to a document'' None)))
           = Some DomainErrorValidation"
proof -
  have split: "pages = take i pages @ pages ! i # drop (Suc i) pages"
    using assms(1) by (simp add: id_take_nth_drop)
  have un: "\<forall>a\<in>set (take i pages). \<not> IsAssigned (h a)"
    using assms(1,3) by (auto simp: in_set_conv_nth)
  have "AddPages_loop h d (take i pages @ pages ! i # drop (Suc i) pages) =
           (\<lambda>x. if x \<in> set (take i pages)
                 then (h x)\<lparr>page_DocumentID := Some (doc_ID d)\<rparr> else h x,
            d\<lparr>doc_Pages := doc_Pages d @ take i pages\<rparr>,
            Some (NewValidationError ''failed to assign page to document''
                    (Some (NewConflictError ''page is already assigned to a document'' None))))"
    by (rule AddPages_loop_stops[OF assms(4) un assms(2)])
  with split have "AddPages_loop h d pages =
           (\<lambda>x. if x \<in> set (take i pages)
                 then (h x)\<lparr>page_DocumentID := Some (doc_ID d)\<rparr> else h x,
            d\<lparr>doc_Pages := doc_Pages d @ take i pages\<rparr>,
            Some (NewValidationError ''failed to assign page to document''
                    (Some (NewConflictError ''page is already assigned to a document'' None))))"
    by simp
  then show ?thesis
    by (simp add: AddPages_def NewValidationError_def NewDomainError_def)
qed

theorem AddPages_partial_witness:
  "(2::nat) < length [0, 1, 2::nat] \<and> IsAssigned (assignedHeap ([0, 1, 2] ! 2)) \<and>
   \<not> IsAssigned (assignedHeap 0) \<and> \<not> IsAssigned (assignedHeap 1) \<and>
   distinct (take 2 [0, 1, 2::nat]) \<and>
   (\<exists>h'. AddPages insertionSort assignedHeap docC [0, 1, 2] =
           (h', docC\<lparr>doc_Pages := [0, 1]\<rparr>,
            Some (NewValidationError ''failed to assign page to document''
                    (Some (NewConflictError ''page is already assigned to a document'' None)))) \<and>
         page_DocumentID (h' 0) = Some ''dC'' \<and> page_DocumentID (h' 1) = Some ''dC'' \<and>
         page_DocumentID (h' 2) = Some ''dB'')"
proof -
  have a: "(2::nat) < length [0, 1, 2::nat]" by simp
  have b: "IsAssigned (assignedHeap ([0, 1, 2] ! 2))"
    by (simp add: assignedHeap_def twoDocHeap_def IsAssigned_def)
  have c: "\<forall>j<2. \<not> IsAssigned (assignedHeap ([0, 1, 2] ! j))"
    by (simp add: assignedHeap_def twoDocHeap_def IsAssigned_def less_Suc_eq numeral_2_eq_2)
  have d: "distinct (take 2 [0, 1, 2::nat])" by simp
  let ?H = "\<lambda>x. if x \<in> set (take 2 [0, 1, 2::nat])
                 then (assignedHeap x)\<lparr>page_DocumentID := Some (doc_ID docC)\<rparr>
                 else assignedHeap x"
  from AddPages_partial[OF a b c d, of insertionSort docC]
  have r1: "AddPages insertionSort assignedHeap docC [0, 1, 2] =
           (?H, docC\<lparr>doc_Pages := doc_Pages docC @ take 2 [0, 1, 2]\<rparr>,
            Some (NewValidationError ''failed to assign page to document''
                    (Some (NewConflictError ''page is already assigned to a document'' None))))"
    by blast
  have r2: "docC\<lparr>doc_Pages := doc_Pages docC @ take 2 [0, 1, 2]\<rparr> = docC\<lparr>doc_Pages := [0, 1]\<rparr>"
    by (simp add: docC_def)
  have r3: "page_DocumentID (?H 0) = Some ''dC'' \<and> page_DocumentID (?H 1) = Some ''dC'' \<and>
            page_DocumentID (?H 2) = Some ''dB''"
    by (simp add: docC_def assignedHeap_def twoDocHeap_def)
  have e: "\<not> IsAssigned (assignedHeap 0) \<and> \<not> IsAssigned (assignedHeap 1)"
    by (simp add: assignedHeap_def twoDocHeap_def IsAssigned_def)
  from r1 r2 r3 have "\<exists>h'. AddPages insertionSort assignedHeap docC [0, 1, 2] =
           (h', docC\<lparr>doc_Pages := [0, 1]\<rparr>,
            Some (NewValidationError ''failed to assign page to document''
                    (Some (NewConflictError ''page is already assigned to a document'' None)))) \<and>
         page_DocumentID (h' 0) = Some ''dC'' \<and> page_DocumentID (h' 1) = Some ''dC'' \<and>
         page_DocumentID (h' 2) = Some ''dB''"
    by (intro exI[of _ ?H]) simp
  with a b d e show ?thesis by blast
qed

text \<open>
  C8 as stated fails when a pointer repeats before position \<open>i\<close>: in the list of page objects
  \<open>0, 0, 1, 2\<close> only the last is assigned, the loop stops at the second occurrence of \<open>0\<close>,
  and the page at position 2 is neither appended nor assigned.
\<close>

theorem AddPages_repeated_page_counterexample:
  "(3::nat) < length [0, 0, 1, 2::nat] \<and> IsAssigned (assignedHeap ([0, 0, 1, 2] ! 3)) \<and>
   \<not> IsAssigned (assignedHeap ([0, 0, 1, 2] ! 0)) \<and>
   \<not> IsAssigned (assignedHeap ([0, 0, 1, 2] ! 1)) \<and>
   \<not> IsAssigned (assignedHeap ([0, 0, 1, 2] ! 2)) \<and>
   doc_Pages (fst (snd (AddPages insertionSort assignedHeap docC [0, 0, 1, 2]))) = [0] \<and>
   [0, 0, 1, 2] ! 2 \<notin> set (doc_Pages (fst (snd (AddPages insertionSort assignedHeap docC [0, 0, 1, 2])))) \<and>
   page_DocumentID (fst (AddPages insertionSort assignedHeap docC [0, 0, 1, 2]) ([0, 0, 1, 2] ! 2)) = None"
  by (simp add: AddPages_def AssignToDocument_def IsAssigned_def assignedHeap_def twoDocHeap_def
        docC_def)

subsection \<open>MovePages when no requested page is in the source\<close>




subsection \<open>Single ownership of pages\<close>

text \<open>No operation changes the ID of a page.\<close>

lemma foldl_Unassign_ID: "page_ID (foldl Unassign h as a) = page_ID (h a)"
  by (simp add: foldl_Unassign_apply)

lemma RemovePages_ID:
  "RemovePages srt h d ids = (h', d', removed, err) \<Longrightarrow> page_ID (h' a) = page_ID (h a)"
  by (auto simp: RemovePages_def Let_def foldl_Unassign_ID split: if_splits)

lemma AddPages_loop_ID:
  "AddPages_loop h d pages = (h', d', err) \<Longrightarrow> page_ID (h' a) = page_ID (h a)"
proof (induction pages arbitrary: h d)
  case Nil then show ?case by simp
next
  case (Cons p pages)
  show ?case
  proof (cases "IsAssigned (h p)")
    case True
    with Cons.prems show ?thesis by (simp add: AssignToDocument_def)
  next
    case False
    with Cons.prems have
      "AddPages_loop (h(p := (h p)\<lparr>page_DocumentID := Some (doc_ID d)\<rparr>))
         (d\<lparr>doc_Pages := doc_Pages d @ [p]\<rparr>) pages = (h', d', err)"
      by (simp add: AssignToDocument_def)
    from Cons.IH[OF this] show ?thesis by (simp split: if_splits)
  qed
qed

lemma AddPages_ID:
  "AddPages srt h d pages = (h', d', err) \<Longrightarrow> page_ID (h' a) = page_ID (h a)"
  by (auto simp: AddPages_def split: prod.splits option.splits dest: AddPages_loop_ID)

text \<open>Where the pages go: the page lists as multisets.\<close>

lemma updatePageNumbers_Pages:
  "doc_Pages (updatePageNumbers srt h d) = srt (\<lambda>a. page_PageNumber (h a)) (doc_Pages d)"
  by (simp add: updatePageNumbers_def Let_def)

lemma updatePageNumbers_mset:
  "sortFunc_spec srt \<Longrightarrow> mset (doc_Pages (updatePageNumbers srt h d)) = mset (doc_Pages d)"
  by (simp add: updatePageNumbers_Pages sortFunc_spec_def)

lemma RemovePages_mset:
  assumes "sortFunc_spec srt" "RemovePages srt h d ids = (h', d', removed, err)"
  shows "mset (doc_Pages d') + mset removed = mset (doc_Pages d)"
proof -
  have "mset (filter (\<lambda>a. page_ID (h a) \<notin> set ids) (doc_Pages d)) +
        mset (filter (\<lambda>a. page_ID (h a) \<in> set ids) (doc_Pages d)) = mset (doc_Pages d)"
    by (induction "doc_Pages d" arbitrary: d) auto
  then show ?thesis
    using assms by (auto simp: RemovePages_def Let_def updatePageNumbers_mset split: if_splits)
qed

lemma AddPages_loop_mset:
  "AddPages_loop h d pages = (h', d', err) \<Longrightarrow>
   mset (doc_Pages d') \<subseteq># mset (doc_Pages d) + mset pages"
proof (induction pages arbitrary: h d)
  case Nil then show ?case by simp
next
  case (Cons p pages)
  show ?case
  proof (cases "IsAssigned (h p)")
    case True
    with Cons.prems show ?thesis by (auto simp: AssignToDocument_def)
  next
    case False
    with Cons.prems have
      "AddPages_loop (h(p := (h p)\<lparr>page_DocumentID := Some (doc_ID d)\<rparr>))
         (d\<lparr>doc_Pages := doc_Pages d @ [p]\<rparr>) pages = (h', d', err)"
      by (simp add: AssignToDocument_def)
    from Cons.IH[OF this] show ?thesis by simp
  qed
qed

lemma AddPages_mset:
  assumes "sortFunc_spec srt" "AddPages srt h d pages = (h', d', err)"
  shows "mset (doc_Pages d') \<subseteq># mset (doc_Pages d) + mset pages"
  using assms
  by (auto simp: AddPages_def updatePageNumbers_mset split: prod.splits option.splits
           dest: AddPages_loop_mset)

lemma docs_update_mset_remove:
  "i < length docs \<Longrightarrow> mset (doc_Pages d) + X = mset (doc_Pages (docs ! i)) \<Longrightarrow>
   mset (concat (map doc_Pages (docs[i := d]))) + X = mset (concat (map doc_Pages docs))"
proof (induction docs arbitrary: i)
  case Nil then show ?case by simp
next
  case (Cons x docs)
  then show ?case by (cases i) (auto simp: ac_simps)
qed

lemma docs_update_mset_add:
  "i < length docs \<Longrightarrow> mset (doc_Pages d) \<subseteq># mset (doc_Pages (docs ! i)) + X \<Longrightarrow>
   mset (concat (map doc_Pages (docs[i := d]))) \<subseteq># mset (concat (map doc_Pages docs)) + X"
proof (induction docs arbitrary: i)
  case Nil then show ?case by simp
next
  case (Cons x docs)
  show ?case
  proof (cases i)
    case 0
    with Cons.prems show ?thesis by (simp add: ac_simps)
  next
    case (Suc k)
    with Cons.prems have "mset (concat (map doc_Pages (docs[k := d]))) \<subseteq>#
        mset (concat (map doc_Pages docs)) + X"
      by (intro Cons.IH) auto
    then show ?thesis using Suc by (simp add: ac_simps)
  qed
qed

lemma distinct_mset_mono:
  assumes "mset ys \<subseteq># mset xs" "distinct xs"
  shows "distinct ys"
proof -
  have "count (mset ys) a = (if a \<in> set ys then 1 else 0)" for a
  proof -
    have "count (mset ys) a \<le> count (mset xs) a"
      using assms(1) by (rule mset_subset_eq_count)
    moreover have "count (mset xs) a \<le> 1"
      using assms(2) by (simp add: distinct_count_atmost_1)
    ultimately have le1: "count (mset ys) a \<le> 1" by simp
    show ?thesis
    proof (cases "a \<in> set ys")
      case True
      with count_mset_0_iff[of ys a] have "count (mset ys) a \<noteq> 0" by blast
      with le1 have "count (mset ys) a = 1" by arith
      with True show ?thesis by (simp only: if_True)
    next
      case False
      then show ?thesis by simp
    qed
  qed
  then show ?thesis by (simp add: distinct_count_atmost_1)
qed

lemma distinct_map_mset_mono:
  assumes "mset ys \<subseteq># mset xs" "distinct (map f xs)"
  shows "distinct (map f ys)"
proof -
  have "mset (map f ys) \<subseteq># mset (map f xs)"
    using assms(1) by (simp add: image_mset_subseteq_mono)
  then show ?thesis using assms(2) by (rule distinct_mset_mono)
qed

lemma singleOwnership_mono:
  assumes "singleOwnership h s" "mset (allPages s') \<subseteq># mset (allPages s)"
      and "\<And>a. page_ID (h' a) = page_ID (h a)"
  shows "singleOwnership h' s'"
proof -
  have "(\<lambda>a. page_ID (h' a)) = (\<lambda>a. page_ID (h a))" using assms(3) by auto
  then show ?thesis
    using assms(1,2) distinct_map_mset_mono[of "allPages s'" "allPages s" "\<lambda>a. page_ID (h a)"]
    by (simp add: singleOwnership_def)
qed

lemma MovePages_pages:
  assumes srt: "sortFunc_spec srt"
      and mp: "MovePages srt h s fromDocID toDocID pageIDs = (h', s', err)"
  shows "mset (allPages s') \<subseteq># mset (allPages s) \<and> (\<forall>a. page_ID (h' a) = page_ID (h a))"
proof -
  let ?docs = "split_Documents s"
  show ?thesis
  proof (cases "split_Status s = SplitStatusFinalized")
    case True
    with mp show ?thesis by (simp add: MovePages_def)
  next
    case nf: False
    show ?thesis
    proof (cases "findLast (\<lambda>doc. doc_ID doc = fromDocID) ?docs")
      case None
      with mp nf show ?thesis by (simp add: MovePages_def)
    next
      case (Some i)
      note i = this
      show ?thesis
      proof (cases "findLast (\<lambda>doc. doc_ID doc = toDocID) ?docs")
        case None
        with mp nf i show ?thesis by (simp add: MovePages_def)
      next
        case (Some j)
        note j = this
        from findLast_SomeD[OF i] have il: "i < length ?docs" by simp
        from findLast_SomeD[OF j] have jl: "j < length ?docs" by simp
        show ?thesis
        proof (cases "list_ex (\<lambda>pid. list_ex (\<lambda>p. page_ID (h p) = pid)
                                    (doc_Pages (?docs ! j))) pageIDs")
          case True
          with mp nf i j show ?thesis by (simp add: MovePages_def)
        next
          case pre: False
          obtain h1 fromDoc removed rerr where
            rp: "RemovePages srt h (?docs ! i) pageIDs = (h1, fromDoc, removed, rerr)"
            by (metis prod_cases4)
          have id1: "\<And>a. page_ID (h1 a) = page_ID (h a)"
            using RemovePages_ID[OF rp] by simp
          show ?thesis
          proof (cases rerr)
            case (Some e)
            with mp nf i j pre rp have "s' = s" "h' = h1" by (auto simp: MovePages_def)
            with id1 show ?thesis by simp
          next
            case None
            let ?docs1 = "?docs[i := fromDoc]"
            obtain h2 toDoc aerr where
              ap: "AddPages srt h1 (?docs1 ! j) removed = (h2, toDoc, aerr)"
              by (metis prod_cases3)
            from mp nf i j pre rp None ap
            have s': "s' = s\<lparr>split_Documents := ?docs1[j := toDoc]\<rparr>" and h': "h' = h2"
              by (auto simp: MovePages_def Let_def split: option.splits)
            have m1: "mset (concat (map doc_Pages ?docs1)) + mset removed =
                      mset (concat (map doc_Pages ?docs))"
              using il RemovePages_mset[OF srt rp] by (rule docs_update_mset_remove)
            have "mset (concat (map doc_Pages (?docs1[j := toDoc]))) \<subseteq>#
                  mset (concat (map doc_Pages ?docs1)) + mset removed"
              using jl AddPages_mset[OF srt ap] by (intro docs_update_mset_add) simp_all
            with m1 have "mset (concat (map doc_Pages (?docs1[j := toDoc]))) \<subseteq>#
                          mset (concat (map doc_Pages ?docs))"
              by simp
            then have "mset (allPages s') \<subseteq># mset (allPages s)"
              using s' by (simp add: allPages_def)
            moreover have "\<forall>a. page_ID (h' a) = page_ID (h a)"
              using AddPages_ID[OF ap] id1 h' by simp
            ultimately show ?thesis by simp
          qed
        qed
      qed
    qed
  qed
qed

lemma RemoveDocument_pages:
  assumes "RemoveDocument srt h s docID = (h', s', err)"
  shows "mset (allPages s') = mset (allPages s) \<and> (\<forall>a. page_ID (h' a) = page_ID (h a))"
proof (cases "split_Status s = SplitStatusFinalized")
  case True
  with assms show ?thesis by (simp add: RemoveDocument_def)
next
  case nf: False
  let ?docs = "split_Documents s"
  show ?thesis
  proof (cases "findFirst (\<lambda>doc. doc_ID doc = docID) ?docs")
    case None
    with assms nf show ?thesis by (simp add: RemoveDocument_def)
  next
    case (Some i)
    from findFirst_SomeD[OF Some] have il: "i < length ?docs" by simp
    obtain h1 d1 removed rerr where rp:
      "RemovePages srt h (?docs ! i) (map (\<lambda>p. page_ID (h p)) (doc_Pages (?docs ! i)))
         = (h1, d1, removed, rerr)"
      by (metis prod_cases4)
    from RemovePages_all[OF rp] have h1: "h1 = foldl Unassign h (doc_Pages (?docs ! i))"
      and rem: "removed = doc_Pages (?docs ! i)" and rerr: "rerr = None" by auto
    from assms nf Some rp rem rerr
    have s': "s' = s\<lparr>split_Documents := take i ?docs @ drop (Suc i) ?docs,
                      split_UnassignedPages := split_UnassignedPages s @ doc_Pages (?docs ! i)\<rparr>"
      and h': "h' = h1"
      by (auto simp: RemoveDocument_def Let_def)
    have "concat (map doc_Pages ?docs) =
          concat (map doc_Pages (take i ?docs)) @ doc_Pages (?docs ! i) @
          concat (map doc_Pages (drop (Suc i) ?docs))"
      using il by (subst id_take_nth_drop[OF il]) simp
    then have "mset (allPages s') = mset (allPages s)"
      using s' by (simp add: allPages_def)
    moreover have "\<forall>a. page_ID (h' a) = page_ID (h a)"
      using h' h1 by (simp add: foldl_Unassign_ID)
    ultimately show ?thesis by simp
  qed
qed

lemma AddDocument_singleOwnership:
  assumes "singleOwnership h s" "bringsNewPages h s doc"
  shows "singleOwnership h (fst (AddDocument h s doc))"
proof -
  let ?f = "\<lambda>a. page_ID (h a)"
  let ?s' = "s\<lparr>split_Documents := split_Documents s @ [doc]\<rparr>"
  have new: "\<forall>a\<in>set (doc_Pages doc). ?f a \<notin> ?f ` set (allPages s)"
    using assms(2) by (simp add: bringsNewPages_def list_all_iff)
  have "distinct (map ?f (doc_Pages doc) @ map ?f (allPages s))"
    using assms new by (auto simp: singleOwnership_def bringsNewPages_def)
  then have "distinct (map ?f (doc_Pages doc @ allPages s))" by simp
  moreover have "mset (map ?f (allPages ?s')) = mset (map ?f (doc_Pages doc @ allPages s))"
    by (simp add: allPages_def)
  ultimately have "distinct (map ?f (allPages ?s'))"
    using mset_eq_imp_distinct_iff by blast
  then have "singleOwnership h ?s'" by (simp add: singleOwnership_def)
  with assms(1) show ?thesis
    by (simp add: AddDocument_def split: option.splits)
qed

lemma UpdateMetadata_Pages: "doc_Pages (UpdateMetadata d m) = doc_Pages d"
  by (simp add: UpdateMetadata_def Let_def split: option.splits)

lemma UpdateDocumentMetadata_allPages:
  "allPages (fst (UpdateDocumentMetadata s docID m)) = allPages s"
proof (cases "findFirst (\<lambda>doc. doc_ID doc = docID) (split_Documents s)")
  case None
  then show ?thesis by (simp add: UpdateDocumentMetadata_def)
next
  case (Some i)
  from findFirst_SomeD[OF Some] have il: "i < length (split_Documents s)" by simp
  have "map doc_Pages ((split_Documents s)[i := UpdateMetadata (split_Documents s ! i) m])
          = map doc_Pages (split_Documents s)"
    using il by (simp add: map_update UpdateMetadata_Pages list_update_same_conv)
  then show ?thesis using Some by (simp add: UpdateDocumentMetadata_def allPages_def)
qed

lemma Finalize_allPages: "allPages (fst (Finalize h s t)) = allPages s"
  by (simp add: Finalize_def allPages_def split: option.splits)

lemma applyMutation_singleOwnership:
  assumes srt: "sortFunc_spec srt"
      and inv: "singleOwnership (fst st) (snd st)"
      and new: "\<And>doc. m = CallAddDocument doc \<Longrightarrow> bringsNewPages (fst st) (snd st) doc"
  shows "singleOwnership (fst (applyMutation srt st m)) (snd (applyMutation srt st m))"
proof -
  obtain h s where st: "st = (h, s)" by (cases st)
  show ?thesis
  proof (cases m)
    case (CallAddDocument doc)
    with new st have "bringsNewPages h s doc" by simp
    with inv st CallAddDocument show ?thesis by (simp add: AddDocument_singleOwnership)
  next
    case (CallRemoveDocument docID)
    obtain h' s' err where r: "RemoveDocument srt h s docID = (h', s', err)"
      by (metis prod_cases3)
    from RemoveDocument_pages[OF r] have "mset (allPages s') \<subseteq># mset (allPages s)"
      and "\<And>a. page_ID (h' a) = page_ID (h a)" by simp_all
    moreover from inv st have "singleOwnership h s" by simp
    ultimately have "singleOwnership h' s'"
      using singleOwnership_mono[of h s s' h'] by blast
    with r st CallRemoveDocument show ?thesis by simp
  next
    case (CallMovePages f t ids)
    obtain h' s' err where r: "MovePages srt h s f t ids = (h', s', err)"
      by (metis prod_cases3)
    from MovePages_pages[OF srt r] have "mset (allPages s') \<subseteq># mset (allPages s)"
      and "\<And>a. page_ID (h' a) = page_ID (h a)" by simp_all
    moreover from inv st have "singleOwnership h s" by simp
    ultimately have "singleOwnership h' s'"
      using singleOwnership_mono[of h s s' h'] by blast
    with r st CallMovePages show ?thesis by simp
  next
    case (CallUpdateDocumentMetadata docID meta)
    with inv st show ?thesis
      by (simp add: singleOwnership_def UpdateDocumentMetadata_allPages)
  next
    case (CallFinalize t)
    with inv st show ?thesis by (simp add: singleOwnership_def Finalize_allPages)
  qed
qed

lemma run_singleOwnership:
  assumes "sortFunc_spec srt"
  shows "singleOwnership (fst st) (snd st) \<Longrightarrow> addsNewPages srt st ms \<Longrightarrow>
         \<forall>st'\<in>set (run srt st ms). singleOwnership (fst st') (snd st')"
proof (induction ms arbitrary: st)
  case Nil then show ?case by simp
next
  case (Cons m ms)
  have new: "\<And>doc. m = CallAddDocument doc \<Longrightarrow> bringsNewPages (fst st) (snd st) doc"
    using Cons.prems(2) by auto
  have step: "singleOwnership (fst (applyMutation srt st m)) (snd (applyMutation srt st m))"
    by (rule applyMutation_singleOwnership[OF assms Cons.prems(1) new])
  have rest: "addsNewPages srt (applyMutation srt st m) ms"
    using Cons.prems(2) by (cases m) auto
  from Cons.IH[OF step rest] step show ?case by simp
qed


text \<open>The pages of a new Split are the Page objects it allocated.\<close>

lemma NewPage_ID: "NewPage scan i sid url = Inr p \<Longrightarrow> page_ID p = i"
  by (auto simp: NewPage_def Let_def split: option.splits)

lemma newPages_spec:
  "newPages scan uuid sid h n urls = Inr (h', n', as) \<Longrightarrow>
   as = [n..<n'] \<and> n \<le> n' \<and> (\<forall>a<n. h' a = h a) \<and>
   (\<forall>a. n \<le> a \<and> a < n' \<longrightarrow> page_ID (h' a) = uuid a)"
proof (induction urls arbitrary: h n as)
  case Nil
  then show ?case by auto
next
  case (Cons url urls)
  from Cons.prems obtain p where p: "NewPage scan (uuid n) sid url = Inr p"
    by (auto split: sum.splits)
  with Cons.prems obtain as' where
    rec: "newPages scan uuid sid (h(n := p)) (Suc n) urls = Inr (h', n', as')"
    and as: "as = n # as'"
    by (auto split: sum.splits)
  from Cons.IH[OF rec] have as': "as' = [Suc n..<n']" and le: "Suc n \<le> n'"
    and old: "\<forall>a<Suc n. h' a = (h(n := p)) a"
    and ids: "\<forall>a. Suc n \<le> a \<and> a < n' \<longrightarrow> page_ID (h' a) = uuid a"
    by auto
  have "as = [n..<n']" using as as' le by (simp add: upt_conv_Cons)
  moreover have "\<forall>a<n. h' a = h a" using old by auto
  moreover have "page_ID (h' n) = uuid n" using old NewPage_ID[OF p] by simp
  then have "\<forall>a. n \<le> a \<and> a < n' \<longrightarrow> page_ID (h' a) = uuid a"
    using ids by (metis Suc_leI le_neq_implies_less)
  ultimately show ?case using le by simp
qed

lemma NewDocument_mset:
  "sortFunc_spec srt \<Longrightarrow> NewDocument srt h i sid nm cl fn sd pages = Inr doc \<Longrightarrow>
   mset (doc_Pages doc) = mset pages"
  by (auto simp: NewDocument_def Let_def updatePageNumbers_mset split: option.splits)

lemma newDocuments_spec:
  assumes "sortFunc_spec srt"
  shows "newDocuments srt scan uuid sid h n dds = Inr (h', n', docs) \<Longrightarrow>
   n \<le> n' \<and> (\<forall>a<n. h' a = h a) \<and>
   (\<forall>a. n \<le> a \<and> a < n' \<longrightarrow> page_ID (h' a) = uuid a) \<and>
   mset (concat (map doc_Pages docs)) = mset [n..<n']"
proof (induction dds arbitrary: h n docs)
  case Nil
  then show ?case by auto
next
  case (Cons dd dds)
  from Cons.prems obtain h1 n1 pages where
    np: "newPages scan uuid sid h n (data_PageURLs dd) = Inr (h1, n1, pages)"
    by (auto split: sum.splits)
  with Cons.prems obtain doc where
    nd: "NewDocument srt h1 (data_ID dd) sid (data_Name dd) (data_Classification dd)
           (data_Filename dd) (data_ShortDescription dd) pages = Inr doc"
    by (auto split: sum.splits)
  with Cons.prems np obtain docs' where
    rec: "newDocuments srt scan uuid sid h1 n1 dds = Inr (h', n', docs')"
    and docs: "docs = doc # docs'"
    by (auto split: sum.splits)
  from newPages_spec[OF np] have pages: "pages = [n..<n1]" and le1: "n \<le> n1"
    and old1: "\<forall>a<n. h1 a = h a"
    and ids1: "\<forall>a. n \<le> a \<and> a < n1 \<longrightarrow> page_ID (h1 a) = uuid a"
    by auto
  from Cons.IH[OF rec] have le2: "n1 \<le> n'" and old2: "\<forall>a<n1. h' a = h1 a"
    and ids2: "\<forall>a. n1 \<le> a \<and> a < n' \<longrightarrow> page_ID (h' a) = uuid a"
    and ms: "mset (concat (map doc_Pages docs')) = mset [n1..<n']"
    by auto
  have "[n..<n'] = [n..<n1] @ [n1..<n']"
    using le1 le2 by (metis le_Suc_ex upt_add_eq_append)
  then have "mset (concat (map doc_Pages docs)) = mset [n..<n']"
    using docs ms pages NewDocument_mset[OF assms nd] by simp
  moreover have "\<forall>a<n. h' a = h a" using old1 old2 le1 by auto
  moreover have "\<forall>a. n \<le> a \<and> a < n' \<longrightarrow> page_ID (h' a) = uuid a"
  proof (intro allI impI)
    fix a assume a: "n \<le> a \<and> a < n'"
    show "page_ID (h' a) = uuid a"
    proof (cases "a < n1")
      case True
      with old2 ids1 a show ?thesis by simp
    next
      case False
      with ids2 a show ?thesis by simp
    qed
  qed
  ultimately show ?case using le1 le2 by simp
qed

lemma NewSplit_singleOwnership:
  assumes "sortFunc_spec srt" "inj uuid"
      and "NewSplit srt scan uuid createdAt updatedAt h0 n splitData = Inr (h, s)"
  shows "singleOwnership h s"
proof -
  from assms(3) obtain n' docs where
    nd: "newDocuments srt scan uuid (data_SplitID splitData) h0 n (data_Documents splitData)
           = Inr (h, n', docs)"
    and docs: "split_Documents s = docs" and un: "split_UnassignedPages s = []"
    by (auto simp: NewSplit_def Let_def split: sum.splits option.splits)
  from newDocuments_spec[OF assms(1) nd]
  have ids: "\<forall>a. n \<le> a \<and> a < n' \<longrightarrow> page_ID (h a) = uuid a"
    and ms: "mset (concat (map doc_Pages docs)) = mset [n..<n']" by auto
  have all: "mset (allPages s) = mset [n..<n']"
    using docs un ms by (simp add: allPages_def)
  have "mset (map (\<lambda>a. page_ID (h a)) (allPages s)) = mset (map (\<lambda>a. page_ID (h a)) [n..<n'])"
    using all by simp
  also have "map (\<lambda>a. page_ID (h a)) [n..<n'] = map uuid [n..<n']"
    using ids by simp
  finally have "mset (map (\<lambda>a. page_ID (h a)) (allPages s)) = mset (map uuid [n..<n'])" .
  moreover have "distinct (map uuid [n..<n'])"
    using assms(2) by (simp add: distinct_map inj_on_def inj_def)
  ultimately have "distinct (map (\<lambda>a. page_ID (h a)) (allPages s))"
    using mset_eq_imp_distinct_iff by blast
  then show ?thesis by (simp add: singleOwnership_def)
qed

lemma insertionSort_spec: "sortFunc_spec insertionSort"
  by (simp add: sortFunc_spec_def insertionSort_def)

lemma inj_uuidExample: "inj uuidExample"
proof (rule injI)
  fix x y assume "uuidExample x = uuidExample y"
  then have "length (uuidExample x) = length (uuidExample y)" by simp
  then show "x = y" by (simp add: uuidExample_def)
qed


lemma NewSplit_loaded:
  "NewSplit insertionSort scanExample uuidExample 0 0 spareHeap 0 exampleData
     = Inr (loadedHeap, exampleSplit)"
  by (simp add: NewSplit_def exampleData_def NewDocument_def NewPage_def scanExample_def uuidExample_def
     Page_Valid_def Document_Valid_def updatePageNumbers_def insertionSort_def Split_Valid_def Let_def
     loadedHeap_def spareHeap_def exampleSplit_def exampleDocument_def)

lemma exampleCalls_addsNewPages:
  "addsNewPages insertionSort (loadedHeap, exampleSplit) exampleCalls"
  by (simp add: exampleCalls_def bringsNewPages_def allPages_def AddDocument_def
        Document_Valid_def Page_Valid_def IsAssigned_def SplitStatusFinalized_def
        loadedHeap_def spareHeap_def exampleSplit_def exampleDocument_def docN_def)


text \<open>
  C1 (as amended). Let \<open>NewSplit\<close> have built a Split, the generated IDs being pairwise
  different, and let a sequence of calls of \<open>AddDocument\<close>, \<open>RemoveDocument\<close>, \<open>MovePages\<close>,
  \<open>UpdateDocumentMetadata\<close> and \<open>Finalize\<close> run on it in which every Document handed to
  \<open>AddDocument\<close> brings pages whose IDs are pairwise different and not yet in the Split.
  Then in the new Split and after every call of the sequence, failed or not, each Page ID
  occurs at most once among all page lists and the unassigned pool.
\<close>

theorem single_ownership_preserved:
  assumes "sortFunc_spec srt" and "inj uuid"
      and "NewSplit srt scan uuid createdAt updatedAt h0 n splitData = Inr (h, s)"
      and "addsNewPages srt (h, s) ms"
  shows "singleOwnership h s \<and>
         (\<forall>st\<in>set (run srt (h, s) ms). singleOwnership (fst st) (snd st))"
proof -
  have inv: "singleOwnership h s"
    by (rule NewSplit_singleOwnership[OF assms(1,2,3)])
  then have "singleOwnership (fst (h, s)) (snd (h, s))" by simp
  from run_singleOwnership[OF assms(1) this assms(4)] inv show ?thesis by simp
qed

theorem single_ownership_preserved_witness:
  "sortFunc_spec insertionSort \<and> inj uuidExample \<and>
   NewSplit insertionSort scanExample uuidExample 0 0 spareHeap 0 exampleData
     = Inr (loadedHeap, exampleSplit) \<and>
   addsNewPages insertionSort (loadedHeap, exampleSplit) exampleCalls \<and>
   length (run insertionSort (loadedHeap, exampleSplit) exampleCalls) = 5 \<and>
   singleOwnership loadedHeap exampleSplit \<and>
   list_all (\<lambda>st. singleOwnership (fst st) (snd st))
     (run insertionSort (loadedHeap, exampleSplit) exampleCalls)"
proof -
  note t = single_ownership_preserved[OF insertionSort_spec inj_uuidExample NewSplit_loaded
             exampleCalls_addsNewPages]
  have len: "length (run insertionSort (loadedHeap, exampleSplit) exampleCalls) = 5"
    by (simp add: exampleCalls_def)
  from t have "singleOwnership loadedHeap exampleSplit" and
    "list_all (\<lambda>st. singleOwnership (fst st) (snd st))
       (run insertionSort (loadedHeap, exampleSplit) exampleCalls)"
    unfolding list_all_iff by blast+
  with insertionSort_spec inj_uuidExample NewSplit_loaded exampleCalls_addsNewPages len
  show ?thesis by blast
qed


text \<open>
  C1 as stated fails: \<open>AddDocument\<close> only refuses pages whose \<open>DocumentID\<close> is set, and
  neither \<open>NewDocument\<close> nor \<open>AddDocument\<close> sets it. On the example Split built by \<open>NewSplit\<close>,
  adding a second Document that holds the first page of Document \<open>d1\<close> succeeds, and the
  page's ID is then in two page lists.
\<close>

theorem shared_page_counterexample:
  "NewSplit insertionSort scanExample uuidExample 0 0 (\<lambda>a. noPage) 0 exampleData
     = Inr (exampleHeap, exampleSplit) \<and>
   AddDocument exampleHeap exampleSplit sharingDoc
     = (exampleSplit\<lparr>split_Documents := [exampleDocument, sharingDoc]\<rparr>, None) \<and>
   run insertionSort (exampleHeap, exampleSplit) [CallAddDocument sharingDoc]
     = [(exampleHeap, exampleSplit\<lparr>split_Documents := [exampleDocument, sharingDoc]\<rparr>)] \<and>
   page_ID (exampleHeap 0) \<in> set (map (\<lambda>a. page_ID (exampleHeap a)) (doc_Pages exampleDocument)) \<and>
   page_ID (exampleHeap 0) \<in> set (map (\<lambda>a. page_ID (exampleHeap a)) (doc_Pages sharingDoc)) \<and>
   \<not> singleOwnership exampleHeap (exampleSplit\<lparr>split_Documents := [exampleDocument, sharingDoc]\<rparr>)"
proof -
  have add: "AddDocument exampleHeap exampleSplit sharingDoc
     = (exampleSplit\<lparr>split_Documents := [exampleDocument, sharingDoc]\<rparr>, None)"
    by (simp add: AddDocument_def Document_Valid_def Page_Valid_def IsAssigned_def
          SplitStatusFinalized_def exampleHeap_def exampleSplit_def exampleDocument_def
          sharingDoc_def)
  have "\<not> singleOwnership exampleHeap
            (exampleSplit\<lparr>split_Documents := [exampleDocument, sharingDoc]\<rparr>)"
    by (simp add: singleOwnership_def allPages_def exampleSplit_def exampleDocument_def
          sharingDoc_def)
  moreover have
    "page_ID (exampleHeap 0) \<in> set (map (\<lambda>a. page_ID (exampleHeap a)) (doc_Pages exampleDocument)) \<and>
     page_ID (exampleHeap 0) \<in> set (map (\<lambda>a. page_ID (exampleHeap a)) (doc_Pages sharingDoc))"
    by (simp add: exampleDocument_def sharingDoc_def)
  ultimately show ?thesis using NewSplit_example add by simp
qed

subsection \<open>Moving pages there and back\<close>

lemma updatePageNumbers_form:
  "updatePageNumbers srt h d =
     d\<lparr>doc_Pages := srt (\<lambda>a. page_PageNumber (h a)) (doc_Pages d),
       doc_StartPage :=
         (if srt (\<lambda>a. page_PageNumber (h a)) (doc_Pages d) \<noteq> []
          then page_URL (h (hd (srt (\<lambda>a. page_PageNumber (h a)) (doc_Pages d)))) else []),
       doc_EndPage :=
         (if srt (\<lambda>a. page_PageNumber (h a)) (doc_Pages d) \<noteq> []
          then page_URL (h (last (srt (\<lambda>a. page_PageNumber (h a)) (doc_Pages d)))) else [])\<rparr>"
  by (simp add: updatePageNumbers_def Let_def)

lemma sorted_strict_unique:
  fixes f :: "'a \<Rightarrow> int"
  assumes "sorted (map f xs)" "sorted_wrt (<) (map f ys)" "mset xs = mset ys"
  shows "xs = ys"
proof -
  have sy: "sorted (map f ys)" and dy: "distinct (map f ys)"
    using assms(2) by (simp_all add: strict_sorted_iff)
  have "mset (map f xs) = mset (map f ys)" using assms(3) by simp
  then have "sort (map f ys) = map f xs"
    using assms(1) by (intro properties_for_sort) simp_all
  moreover have "sort (map f ys) = map f ys" using sy by (simp add: sort_key_id_if_sorted)
  ultimately have eq: "map f xs = map f ys" by simp
  have "set xs = set ys" using assms(3) by (rule mset_eq_setD)
  moreover have "inj_on f (set ys)" using dy by (simp add: distinct_map)
  ultimately have "inj_on f (set xs \<union> set ys)" by simp
  with eq show ?thesis by (simp add: inj_on_map_eq_map)
qed

lemma pagesInOrder_restore:
  assumes srt: "sortFunc_spec srt" and tidy: "pagesInOrder h d"
      and ms: "mset ps = mset (doc_Pages d)"
      and num: "\<And>a. page_PageNumber (h' a) = page_PageNumber (h a)"
      and url: "\<And>a. page_URL (h' a) = page_URL (h a)"
  shows "updatePageNumbers srt h' (d\<lparr>doc_Pages := ps, doc_StartPage := x, doc_EndPage := y\<rparr>) = d"
proof -
  let ?key = "\<lambda>a. page_PageNumber (h a)"
  have key: "(\<lambda>a. page_PageNumber (h' a)) = ?key" using num by auto
  have s1: "sorted (map ?key (srt ?key ps))" and s2: "mset (srt ?key ps) = mset (doc_Pages d)"
    using srt ms by (simp_all add: sortFunc_spec_def)
  have s3: "sorted_wrt (<) (map ?key (doc_Pages d))"
    using tidy by (simp add: pagesInOrder_def)
  have L: "srt ?key ps = doc_Pages d" by (rule sorted_strict_unique[OF s1 s3 s2])
  show ?thesis
    using tidy L by (simp add: updatePageNumbers_form key url pagesInOrder_def)
qed

lemma pageData_D:
  "pageData p = pageData q \<Longrightarrow>
   page_ID p = page_ID q \<and> page_SplitID p = page_SplitID q \<and>
   page_PageNumber p = page_PageNumber q \<and> page_URL p = page_URL q"
  by (simp add: pageData_def)

lemma foldl_Unassign_data: "pageData (foldl Unassign h as a) = pageData (h a)"
  by (simp add: foldl_Unassign_apply pageData_def)

lemma AddPages_loop_ok:
  assumes "distinct ps" "\<forall>a\<in>set ps. \<not> IsAssigned (h a)"
  shows "AddPages_loop h d ps =
           (\<lambda>x. if x \<in> set ps then (h x)\<lparr>page_DocumentID := Some (doc_ID d)\<rparr> else h x,
            d\<lparr>doc_Pages := doc_Pages d @ ps\<rparr>, None)"
  using assms
proof (induction ps arbitrary: h d)
  case Nil
  then show ?case by simp
next
  case (Cons a ps)
  let ?h1 = "h(a := (h a)\<lparr>page_DocumentID := Some (doc_ID d)\<rparr>)"
  let ?d1 = "d\<lparr>doc_Pages := doc_Pages d @ [a]\<rparr>"
  from Cons.prems have a: "\<not> IsAssigned (h a)" and an: "a \<notin> set ps" by auto
  have "AddPages_loop h d (a # ps) = AddPages_loop ?h1 ?d1 ps"
    using a by (simp add: AssignToDocument_def)
  also have "\<dots> = (\<lambda>x. if x \<in> set ps then (?h1 x)\<lparr>page_DocumentID := Some (doc_ID ?d1)\<rparr> else ?h1 x,
            ?d1\<lparr>doc_Pages := doc_Pages ?d1 @ ps\<rparr>, None)"
    using Cons.prems an by (intro Cons.IH) auto
  also have "(\<lambda>x. if x \<in> set ps then (?h1 x)\<lparr>page_DocumentID := Some (doc_ID ?d1)\<rparr> else ?h1 x)
      = (\<lambda>x. if x \<in> set (a # ps) then (h x)\<lparr>page_DocumentID := Some (doc_ID d)\<rparr> else h x)"
    using an by (auto simp: fun_eq_iff)
  finally show ?case by simp
qed

lemma AddPages_loop_None:
  "AddPages_loop h d ps = (h', d', None) \<Longrightarrow>
   distinct ps \<and> (\<forall>a\<in>set ps. \<not> IsAssigned (h a))"
proof (induction ps arbitrary: h d)
  case Nil
  then show ?case by simp
next
  case (Cons a ps)
  let ?h1 = "h(a := (h a)\<lparr>page_DocumentID := Some (doc_ID d)\<rparr>)"
  have a: "\<not> IsAssigned (h a)"
    using Cons.prems by (auto simp: AssignToDocument_def split: if_splits)
  with Cons.prems have
    rec: "AddPages_loop ?h1 (d\<lparr>doc_Pages := doc_Pages d @ [a]\<rparr>) ps = (h', d', None)"
    by (simp add: AssignToDocument_def)
  from Cons.IH[OF rec] have d: "distinct ps" and un: "\<forall>x\<in>set ps. \<not> IsAssigned (?h1 x)"
    by auto
  have "IsAssigned (?h1 a)" by (simp add: IsAssigned_def)
  with un have an: "a \<notin> set ps" by blast
  have "\<forall>x\<in>set ps. \<not> IsAssigned (h x)"
  proof
    fix x assume x: "x \<in> set ps"
    with an have "x \<noteq> a" by auto
    moreover from un x have "\<not> IsAssigned (?h1 x)" by blast
    ultimately show "\<not> IsAssigned (h x)" by simp
  qed
  with a d an show ?case by simp
qed

lemma AddPages_ok:
  assumes "distinct ps" "\<forall>a\<in>set ps. \<not> IsAssigned (h a)"
  shows "AddPages srt h d ps =
           (\<lambda>x. if x \<in> set ps then (h x)\<lparr>page_DocumentID := Some (doc_ID d)\<rparr> else h x,
            updatePageNumbers srt
              (\<lambda>x. if x \<in> set ps then (h x)\<lparr>page_DocumentID := Some (doc_ID d)\<rparr> else h x)
              (d\<lparr>doc_Pages := doc_Pages d @ ps\<rparr>), None)"
  by (simp add: AddPages_def AddPages_loop_ok[OF assms])

lemma AddPages_None:
  assumes "AddPages srt h d ps = (h', d', None)"
  shows "distinct ps \<and> (\<forall>a\<in>set ps. \<not> IsAssigned (h a)) \<and>
         h' = (\<lambda>x. if x \<in> set ps then (h x)\<lparr>page_DocumentID := Some (doc_ID d)\<rparr> else h x) \<and>
         d' = updatePageNumbers srt
                (\<lambda>x. if x \<in> set ps then (h x)\<lparr>page_DocumentID := Some (doc_ID d)\<rparr> else h x)
                (d\<lparr>doc_Pages := doc_Pages d @ ps\<rparr>)"
proof -
  obtain hl dl el where l: "AddPages_loop h d ps = (hl, dl, el)" by (metis prod_cases3)
  with assms have el: "el = None" by (auto simp: AddPages_def split: option.splits)
  from AddPages_loop_None[OF l[unfolded el]]
  have ok: "distinct ps" "\<forall>a\<in>set ps. \<not> IsAssigned (h a)" by auto
  from assms[unfolded AddPages_ok[OF ok]] ok show ?thesis by (simp only: prod.inject) blast
qed

lemma AddPages_data:
  "AddPages srt h d ps = (h', d', None) \<Longrightarrow> pageData (h' a) = pageData (h a)"
  by (drule AddPages_None) (simp add: pageData_def)

lemma RemovePages_None:
  assumes "P \<noteq> []" "RemovePages srt h d P = (h', d', rem, None)"
  shows "rem = filter (\<lambda>a. page_ID (h a) \<in> set P) (doc_Pages d) \<and> rem \<noteq> [] \<and>
         h' = foldl Unassign h rem \<and>
         d' = updatePageNumbers srt h'
                (d\<lparr>doc_Pages := filter (\<lambda>a. page_ID (h a) \<notin> set P) (doc_Pages d)\<rparr>)"
  using assms by (auto simp: RemovePages_def Let_def split: if_splits)

lemma RemovePages_ok:
  assumes "P \<noteq> []" "filter (\<lambda>a. page_ID (h a) \<in> set P) (doc_Pages d) \<noteq> []"
  shows "RemovePages srt h d P =
           (foldl Unassign h (filter (\<lambda>a. page_ID (h a) \<in> set P) (doc_Pages d)),
            updatePageNumbers srt
              (foldl Unassign h (filter (\<lambda>a. page_ID (h a) \<in> set P) (doc_Pages d)))
              (d\<lparr>doc_Pages := filter (\<lambda>a. page_ID (h a) \<notin> set P) (doc_Pages d)\<rparr>),
            filter (\<lambda>a. page_ID (h a) \<in> set P) (doc_Pages d), None)"
  using assms by (simp add: RemovePages_def Let_def)

lemma updatePageNumbers_ID: "doc_ID (updatePageNumbers srt h d) = doc_ID d"
  by (simp add: updatePageNumbers_form)

lemma findLast_cong_map:
  "map f xs = map f ys \<Longrightarrow> findLast (\<lambda>d. f d = x) xs = findLast (\<lambda>d. f d = x) ys"
proof (induction xs arbitrary: ys)
  case Nil then show ?case by simp
next
  case (Cons a xs)
  then obtain b ys' where ys: "ys = b # ys'" by (cases ys) auto
  with Cons.prems have "f a = f b" "map f xs = map f ys'" by auto
  with Cons.IH[of ys'] ys show ?case by simp
qed

lemma map_update_same:
  "k < length xs \<Longrightarrow> f y = f (xs ! k) \<Longrightarrow> map f (xs[k := y]) = map f xs"
  by (simp add: map_update list_update_same_conv)

lemma MovePages_NoneD:
  assumes "MovePages srt h s A B P = (h1, s1, None)"
  shows "\<exists>i j ha dA rem dB.
           split_Status s \<noteq> SplitStatusFinalized \<and>
           findLast (\<lambda>doc. doc_ID doc = A) (split_Documents s) = Some i \<and>
           findLast (\<lambda>doc. doc_ID doc = B) (split_Documents s) = Some j \<and>
           \<not> list_ex (\<lambda>pid. list_ex (\<lambda>p. page_ID (h p) = pid)
                                (doc_Pages (split_Documents s ! j))) P \<and>
           RemovePages srt h (split_Documents s ! i) P = (ha, dA, rem, None) \<and>
           AddPages srt ha ((split_Documents s)[i := dA] ! j) rem = (h1, dB, None) \<and>
           s1 = s\<lparr>split_Documents := (split_Documents s)[i := dA, j := dB]\<rparr>"
proof -
  let ?docs = "split_Documents s"
  from assms have nf: "split_Status s \<noteq> SplitStatusFinalized"
    by (auto simp: MovePages_def split: if_splits)
  from assms nf obtain i where i: "findLast (\<lambda>doc. doc_ID doc = A) ?docs = Some i"
    by (cases "findLast (\<lambda>doc. doc_ID doc = A) ?docs") (auto simp: MovePages_def)
  from assms nf i obtain j where j: "findLast (\<lambda>doc. doc_ID doc = B) ?docs = Some j"
    by (cases "findLast (\<lambda>doc. doc_ID doc = B) ?docs") (auto simp: MovePages_def)
  from assms nf i j have pre: "\<not> list_ex (\<lambda>pid. list_ex (\<lambda>p. page_ID (h p) = pid)
                                (doc_Pages (?docs ! j))) P"
    by (auto simp: MovePages_def split: if_splits)
  obtain ha dA rem rerr where rp: "RemovePages srt h (?docs ! i) P = (ha, dA, rem, rerr)"
    by (metis prod_cases4)
  from assms nf i j pre rp have rerr: "rerr = None"
    by (cases rerr) (auto simp: MovePages_def)
  obtain hb dB aerr where ap: "AddPages srt ha (?docs[i := dA] ! j) rem = (hb, dB, aerr)"
    by (metis prod_cases3)
  from assms nf i j pre rp rerr ap
  have "aerr = None \<and> hb = h1 \<and> s1 = s\<lparr>split_Documents := ?docs[i := dA, j := dB]\<rparr>"
    by (cases aerr) (auto simp: MovePages_def Let_def)
  with nf i j pre rp rerr ap show ?thesis by blast
qed

lemma MovePages_NoneI:
  assumes "split_Status s \<noteq> SplitStatusFinalized"
      and "findLast (\<lambda>doc. doc_ID doc = A) (split_Documents s) = Some i"
      and "findLast (\<lambda>doc. doc_ID doc = B) (split_Documents s) = Some j"
      and "\<not> list_ex (\<lambda>pid. list_ex (\<lambda>p. page_ID (h p) = pid)
                                (doc_Pages (split_Documents s ! j))) P"
      and "RemovePages srt h (split_Documents s ! i) P = (ha, dA, rem, None)"
      and "AddPages srt ha ((split_Documents s)[i := dA] ! j) rem = (h1, dB, None)"
  shows "MovePages srt h s A B P =
           (h1, s\<lparr>split_Documents := (split_Documents s)[i := dA, j := dB]\<rparr>, None)"
  using assms by (simp add: MovePages_def Let_def)

lemma pagesInOrder_fix:
  assumes "sortFunc_spec srt" "pagesInOrder h d"
  shows "updatePageNumbers srt h d = d"
proof -
  have "updatePageNumbers srt h
          (d\<lparr>doc_Pages := doc_Pages d, doc_StartPage := doc_StartPage d,
             doc_EndPage := doc_EndPage d\<rparr>) = d"
    using assms by (intro pagesInOrder_restore) simp_all
  then show ?thesis by simp
qed

lemma restore_after_update:
  assumes "sortFunc_spec srt" "pagesInOrder h d" "mset X = mset (doc_Pages d)"
      and "\<And>a. pageData (h2 a) = pageData (h a)"
  shows "updatePageNumbers srt h2
           ((updatePageNumbers srt h' (d\<lparr>doc_Pages := q\<rparr>))\<lparr>doc_Pages := X\<rparr>) = d"
proof -
  have shape: "(updatePageNumbers srt h' (d\<lparr>doc_Pages := q\<rparr>))\<lparr>doc_Pages := X\<rparr> =
      d\<lparr>doc_Pages := X,
        doc_StartPage := doc_StartPage (updatePageNumbers srt h' (d\<lparr>doc_Pages := q\<rparr>)),
        doc_EndPage := doc_EndPage (updatePageNumbers srt h' (d\<lparr>doc_Pages := q\<rparr>))\<rparr>"
    by (simp add: updatePageNumbers_form)
  have num: "\<And>a. page_PageNumber (h2 a) = page_PageNumber (h a)"
    and url: "\<And>a. page_URL (h2 a) = page_URL (h a)"
    using assms(4) pageData_D by blast+
  show ?thesis
    unfolding shape by (rule pagesInOrder_restore[OF assms(1,2,3) num url])
qed

lemma filter_partition_mset:
  "mset (filter (\<lambda>a. \<not> Q a) xs) + mset (filter Q xs) = mset xs"
  by (induction xs) auto

lemma map_update_same2:
  assumes "i < length xs" "j < length xs" "f a = f (xs ! i)" "f b = f (xs ! j)"
  shows "map f (xs[i := a, j := b]) = map f xs"
proof -
  have 1: "map f (xs[i := a]) = map f xs"
    using assms(1,3) by (rule map_update_same)
  have "map f (xs[i := a]) ! j = map f xs ! j" using 1 by simp
  then have "f (xs[i := a] ! j) = f (xs ! j)" using assms(2) by simp
  with assms(4) have "f b = f (xs[i := a] ! j)" by simp
  moreover have "j < length (xs[i := a])" using assms(2) by simp
  ultimately have "map f (xs[i := a, j := b]) = map f (xs[i := a])"
    by (intro map_update_same)
  with 1 show ?thesis by simp
qed


text \<open>
  C7 (as amended). If \<open>MovePages\<close> succeeds in moving the pages with IDs \<open>P\<close> from Document
  \<open>A\<close> to Document \<open>B\<close>, then moving \<open>P\<close> from \<open>B\<close> back to \<open>A\<close> succeeds, and every Document
  of the Split has the pages it had before the first move (as a multiset). If before the first
  move every Document with one of the two IDs had its pages in strictly ascending page-number
  order and range bounds equal to the URLs of its first and last page, the whole Split is as
  it was: page lists, \<open>StartPage\<close> and \<open>EndPage\<close> included. This holds for every sort that
  meets \<open>sortFunc_spec\<close>. (A successful first move already means that the Split is not
  finalized and holds Documents with both IDs.)
\<close>

theorem MovePages_round_trip:
  assumes srt: "sortFunc_spec srt"
      and mp: "MovePages srt h s A B P = (h1, s1, None)"
  shows "\<exists>h2 s2. MovePages srt h1 s1 B A P = (h2, s2, None) \<and>
           map doc_ID (split_Documents s2) = map doc_ID (split_Documents s) \<and>
           map (\<lambda>d. mset (doc_Pages d)) (split_Documents s2) =
             map (\<lambda>d. mset (doc_Pages d)) (split_Documents s) \<and>
           ((\<forall>d\<in>set (split_Documents s). doc_ID d = A \<or> doc_ID d = B \<longrightarrow> pagesInOrder h d)
              \<longrightarrow> s2 = s)"
proof -
  let ?docs = "split_Documents s"
  let ?M = "\<lambda>d. mset (doc_Pages d)"
  from MovePages_NoneD[OF mp] obtain i j ha dA rem dB where
    nf: "split_Status s \<noteq> SplitStatusFinalized" and
    i: "findLast (\<lambda>doc. doc_ID doc = A) ?docs = Some i" and
    j: "findLast (\<lambda>doc. doc_ID doc = B) ?docs = Some j" and
    pre: "\<not> list_ex (\<lambda>pid. list_ex (\<lambda>p. page_ID (h p) = pid) (doc_Pages (?docs ! j))) P" and
    rp: "RemovePages srt h (?docs ! i) P = (ha, dA, rem, None)" and
    ap: "AddPages srt ha (?docs[i := dA] ! j) rem = (h1, dB, None)" and
    s1: "s1 = s\<lparr>split_Documents := ?docs[i := dA, j := dB]\<rparr>"
    by blast
  from findLast_SomeD[OF i] have il: "i < length ?docs" and idA: "doc_ID (?docs ! i) = A" by auto
  from findLast_SomeD[OF j] have jl: "j < length ?docs" and idB: "doc_ID (?docs ! j) = B" by auto
  have inA: "?docs ! i \<in> set ?docs" and inB: "?docs ! j \<in> set ?docs" using il jl by auto
  have nf1: "split_Status s1 \<noteq> SplitStatusFinalized" using nf s1 by simp
  show ?thesis
  proof (cases "P = []")
    case True
    from rp True have ha: "ha = h" and dA: "dA = ?docs ! i" and rem: "rem = []"
      by (simp_all add: RemovePages_def)
    define U where "U = updatePageNumbers srt h (?docs ! j)"
    from ap ha dA rem have h1: "h1 = h" and dB: "dB = U"
      by (auto simp: AddPages_def U_def)
    let ?docs1 = "?docs[j := U]"
    have s1': "split_Documents s1 = ?docs1" using s1 dA dB by simp
    have ids1: "map doc_ID ?docs1 = map doc_ID ?docs"
      using jl by (intro map_update_same) (simp_all add: U_def updatePageNumbers_ID)
    have i1: "findLast (\<lambda>doc. doc_ID doc = A) (split_Documents s1) = Some i"
      using findLast_cong_map[OF ids1, of A] i s1' by simp
    have j1: "findLast (\<lambda>doc. doc_ID doc = B) (split_Documents s1) = Some j"
      using findLast_cong_map[OF ids1, of B] j s1' by simp
    define V where "V = updatePageNumbers srt h (?docs1 ! i)"
    have pre1: "\<not> list_ex (\<lambda>pid. list_ex (\<lambda>p. page_ID (h1 p) = pid)
                  (doc_Pages (split_Documents s1 ! i))) P"
      using True by simp
    have rp1: "RemovePages srt h1 (split_Documents s1 ! j) P =
                 (h1, split_Documents s1 ! j, [], None)"
      using True by (simp add: RemovePages_def)
    have ap1: "AddPages srt h1 ((split_Documents s1)[j := split_Documents s1 ! j] ! i) [] =
                 (h1, V, None)"
      by (simp add: AddPages_def V_def s1' h1)
    from MovePages_NoneI[OF nf1 j1 i1 pre1 rp1 ap1]
    have mp2: "MovePages srt h1 s1 B A P = (h1, s1\<lparr>split_Documents := ?docs1[i := V]\<rparr>, None)"
      by (simp add: s1')
    have il1: "i < length ?docs1" using il by simp
    have m1: "map ?M ?docs1 = map ?M ?docs"
      using jl by (intro map_update_same) (simp_all add: U_def updatePageNumbers_mset[OF srt])
    have m2: "map ?M (?docs1[i := V]) = map ?M ?docs1"
      using il1 by (intro map_update_same) (simp_all add: V_def updatePageNumbers_mset[OF srt])
    have id2: "map doc_ID (?docs1[i := V]) = map doc_ID ?docs1"
      using il1 by (intro map_update_same) (simp_all add: V_def updatePageNumbers_ID)
    have tidy: "s1\<lparr>split_Documents := ?docs1[i := V]\<rparr> = s"
      if t: "\<forall>d\<in>set ?docs. doc_ID d = A \<or> doc_ID d = B \<longrightarrow> pagesInOrder h d"
    proof -
      from t inA idA have tA: "pagesInOrder h (?docs ! i)" by blast
      from t inB idB have tB: "pagesInOrder h (?docs ! j)" by blast
      have "U = ?docs ! j" unfolding U_def by (rule pagesInOrder_fix[OF srt tB])
      then have d1: "?docs1 = ?docs" by simp
      then have "V = ?docs ! i" unfolding V_def using pagesInOrder_fix[OF srt tA] by simp
      with d1 have "?docs1[i := V] = ?docs" by simp
      then show ?thesis using s1 by simp
    qed
    have mm: "map ?M (?docs1[i := V]) = map ?M ?docs" using m1 m2 by simp
    have ii: "map doc_ID (?docs1[i := V]) = map doc_ID ?docs" using ids1 id2 by simp
    show ?thesis
    proof (intro exI conjI impI)
      show "MovePages srt h1 s1 B A P = (h1, s1\<lparr>split_Documents := ?docs1[i := V]\<rparr>, None)"
        by (rule mp2)
      show "map doc_ID (split_Documents (s1\<lparr>split_Documents := ?docs1[i := V]\<rparr>)) =
            map doc_ID ?docs" using ii by simp
      show "map ?M (split_Documents (s1\<lparr>split_Documents := ?docs1[i := V]\<rparr>)) = map ?M ?docs"
        using mm by simp
      assume "\<forall>d\<in>set ?docs. doc_ID d = A \<or> doc_ID d = B \<longrightarrow> pagesInOrder h d"
      then show "s1\<lparr>split_Documents := ?docs1[i := V]\<rparr> = s" by (rule tidy)
    qed
  next
    case False
    let ?Q = "\<lambda>a. page_ID (h a) \<in> set P"
    let ?pA = "doc_Pages (?docs ! i)" and ?pB = "doc_Pages (?docs ! j)"
    let ?keepA = "filter (\<lambda>a. page_ID (h a) \<notin> set P) ?pA"
    from RemovePages_None[OF False rp]
    have rem: "rem = filter ?Q ?pA" and remne: "rem \<noteq> []"
      and ha: "ha = foldl Unassign h rem"
      and dA: "dA = updatePageNumbers srt ha ((?docs ! i)\<lparr>doc_Pages := ?keepA\<rparr>)"
      by auto
    have noB: "\<forall>p\<in>set ?pB. \<not> ?Q p"
      using pre by (auto simp: list_ex_iff)
    have ij: "i \<noteq> j"
    proof
      assume "i = j"
      with noB have "filter ?Q ?pA = []" by (simp add: filter_empty_conv)
      with rem remne show False by simp
    qed
    have ap': "AddPages srt ha (?docs ! j) rem = (h1, dB, None)"
      using ap ij by simp
    from AddPages_None[OF ap']
    have drem: "distinct rem"
      and h1: "h1 = (\<lambda>x. if x \<in> set rem
                         then (ha x)\<lparr>page_DocumentID := Some (doc_ID (?docs ! j))\<rparr> else ha x)"
      and dB0: "dB = updatePageNumbers srt
                (\<lambda>x. if x \<in> set rem
                      then (ha x)\<lparr>page_DocumentID := Some (doc_ID (?docs ! j))\<rparr> else ha x)
                ((?docs ! j)\<lparr>doc_Pages := ?pB @ rem\<rparr>)"
      by blast+
    have dB: "dB = updatePageNumbers srt h1 ((?docs ! j)\<lparr>doc_Pages := ?pB @ rem\<rparr>)"
      using dB0 h1 by simp
    have D1: "\<And>a. pageData (h1 a) = pageData (h a)"
      using AddPages_data[OF ap'] ha by (simp add: foldl_Unassign_data)
    have pid1: "\<And>a. page_ID (h1 a) = page_ID (h a)"
      using D1 pageData_D by blast
    have Q1: "(\<lambda>a. page_ID (h1 a) \<in> set P) = ?Q"
      by (simp add: pid1)
    have nQ1: "(\<lambda>a. page_ID (h1 a) \<notin> set P) = (\<lambda>a. \<not> ?Q a)"
      by (simp add: pid1)
    let ?docs1 = "?docs[i := dA, j := dB]"
    have s1': "split_Documents s1 = ?docs1" using s1 by simp
    have idA': "doc_ID dA = doc_ID (?docs ! i)" by (simp add: dA updatePageNumbers_ID)
    have idB': "doc_ID dB = doc_ID (?docs ! j)" by (simp add: dB updatePageNumbers_ID)
    have ids1: "map doc_ID ?docs1 = map doc_ID ?docs"
      using il jl idA' idB' by (rule map_update_same2)
    have i1: "findLast (\<lambda>doc. doc_ID doc = A) (split_Documents s1) = Some i"
      using findLast_cong_map[OF ids1, of A] i s1' by simp
    have j1: "findLast (\<lambda>doc. doc_ID doc = B) (split_Documents s1) = Some j"
      using findLast_cong_map[OF ids1, of B] j s1' by simp
    have at_j: "split_Documents s1 ! j = dB" using s1' jl by simp
    have at_i: "split_Documents s1 ! i = dA" using s1' il ij by simp
    have pagesA: "doc_Pages dA = srt (\<lambda>a. page_PageNumber (ha a)) ?keepA"
      by (simp add: dA updatePageNumbers_Pages)
    have msA: "mset (doc_Pages dA) = mset ?keepA"
      by (simp add: dA updatePageNumbers_mset[OF srt])
    have pre1: "\<not> list_ex (\<lambda>pid. list_ex (\<lambda>p. page_ID (h1 p) = pid)
                  (doc_Pages (split_Documents s1 ! i))) P"
    proof -
      have "set (doc_Pages dA) = set ?keepA" using msA by (rule mset_eq_setD)
      then have "\<forall>p\<in>set (doc_Pages dA). page_ID (h p) \<notin> set P" by simp
      moreover have "\<And>p. page_ID (h1 p) = page_ID (h p)" using D1 pageData_D by blast
      ultimately show ?thesis unfolding at_i by (auto simp: list_ex_iff)
    qed
    let ?LB = "doc_Pages dB"
    define rem2 where "rem2 = filter (\<lambda>a. page_ID (h1 a) \<in> set P) ?LB"
    define keepB2 where "keepB2 = filter (\<lambda>a. page_ID (h1 a) \<notin> set P) ?LB"
    have msLB: "mset ?LB = mset (?pB @ rem)"
      by (simp add: dB updatePageNumbers_mset[OF srt])
    have fB: "filter ?Q ?pB = []" using noB by (simp add: filter_empty_conv)
    have fB': "filter (\<lambda>a. \<not> ?Q a) ?pB = ?pB" using noB by (simp add: filter_id_conv)
    have fR: "filter ?Q rem = rem" by (simp add: rem)
    have fR': "filter (\<lambda>a. \<not> ?Q a) rem = []" by (simp add: rem filter_empty_conv)
    have "mset rem2 = mset (filter ?Q (?pB @ rem))"
      unfolding rem2_def Q1 using msLB by (simp only: mset_filter)
    then have msrem2: "mset rem2 = mset rem" using fB fR by simp
    have "mset keepB2 = mset (filter (\<lambda>a. \<not> ?Q a) (?pB @ rem))"
      unfolding keepB2_def nQ1 using msLB by (simp only: mset_filter)
    then have mskeep: "mset keepB2 = mset ?pB" using fB' fR' by simp
    have rem2ne: "rem2 \<noteq> []"
      using msrem2 remne by (metis mset_zero_iff)
    define hb where "hb = foldl Unassign h1 rem2"
    define dB2 where "dB2 = updatePageNumbers srt hb (dB\<lparr>doc_Pages := keepB2\<rparr>)"
    have rp1: "RemovePages srt h1 (split_Documents s1 ! j) P = (hb, dB2, rem2, None)"
      unfolding at_j hb_def dB2_def rem2_def keepB2_def
      by (rule RemovePages_ok[OF False rem2ne[unfolded rem2_def]])
    have drem2: "distinct rem2"
      using msrem2 drem mset_eq_imp_distinct_iff by blast
    have un2: "\<forall>a\<in>set rem2. \<not> IsAssigned (hb a)"
      by (simp add: hb_def foldl_Unassign_apply IsAssigned_def)
    define h2 where
      "h2 = (\<lambda>x. if x \<in> set rem2 then (hb x)\<lparr>page_DocumentID := Some (doc_ID dA)\<rparr> else hb x)"
    define dA2 where
      "dA2 = updatePageNumbers srt h2 (dA\<lparr>doc_Pages := doc_Pages dA @ rem2\<rparr>)"
    have at_i': "(split_Documents s1)[j := dB2] ! i = dA"
      using at_i ij by simp
    have ap1: "AddPages srt hb ((split_Documents s1)[j := dB2] ! i) rem2 = (h2, dA2, None)"
      unfolding at_i' h2_def dA2_def by (rule AddPages_ok[OF drem2 un2])
    from MovePages_NoneI[OF nf1 j1 i1 pre1 rp1 ap1]
    have mp2: "MovePages srt h1 s1 B A P =
                 (h2, s1\<lparr>split_Documents := ?docs1[j := dB2, i := dA2]\<rparr>, None)"
      by (simp add: s1')
    have docs2: "?docs1[j := dB2, i := dA2] = ?docs[i := dA2, j := dB2]"
      using ij by (simp add: list_update_swap[of i j])
    have msA2: "mset (doc_Pages dA2) = mset ?pA"
    proof -
      have "mset (doc_Pages dA2) = mset ?keepA + mset rem"
        by (simp add: dA2_def updatePageNumbers_mset[OF srt] msA msrem2)
      then show ?thesis using filter_partition_mset[of ?Q ?pA] by (simp add: rem)
    qed
    have msB2: "mset (doc_Pages dB2) = mset ?pB"
      by (simp add: dB2_def updatePageNumbers_mset[OF srt] mskeep)
    have idA2: "doc_ID dA2 = doc_ID (?docs ! i)" by (simp add: dA2_def updatePageNumbers_ID idA')
    have idB2: "doc_ID dB2 = doc_ID (?docs ! j)" by (simp add: dB2_def updatePageNumbers_ID idB')
    have m: "map ?M (?docs[i := dA2, j := dB2]) = map ?M ?docs"
      using il jl msA2 msB2 by (rule map_update_same2)
    have ids: "map doc_ID (?docs[i := dA2, j := dB2]) = map doc_ID ?docs"
      using il jl idA2 idB2 by (rule map_update_same2)
    have Db: "\<And>a. pageData (hb a) = pageData (h a)"
      using D1 by (simp add: hb_def foldl_Unassign_data)
    have D2: "\<And>a. pageData (h2 a) = pageData (h a)"
      using Db by (simp add: h2_def pageData_def)
    have tidy: "s1\<lparr>split_Documents := ?docs[i := dA2, j := dB2]\<rparr> = s"
      if t: "\<forall>d\<in>set ?docs. doc_ID d = A \<or> doc_ID d = B \<longrightarrow> pagesInOrder h d"
    proof -
      from t inA idA have tA: "pagesInOrder h (?docs ! i)" by blast
      from t inB idB have tB: "pagesInOrder h (?docs ! j)" by blast
      have "mset (doc_Pages dA @ rem2) = mset ?pA"
        using msA2 by (simp add: dA2_def updatePageNumbers_mset[OF srt])
      from restore_after_update[OF srt tA this D2, of ha ?keepA]
      have a: "dA2 = ?docs ! i" by (simp add: dA2_def dA)
      from restore_after_update[OF srt tB mskeep Db, of h1 "?pB @ rem"]
      have b: "dB2 = ?docs ! j" by (simp add: dB2_def dB)
      from a b have "?docs[i := dA2, j := dB2] = ?docs" by simp
      then show ?thesis using s1 by simp
    qed
    show ?thesis
    proof (intro exI conjI impI)
      show "MovePages srt h1 s1 B A P =
              (h2, s1\<lparr>split_Documents := ?docs[i := dA2, j := dB2]\<rparr>, None)"
        using mp2 unfolding docs2 .
      show "map doc_ID (split_Documents (s1\<lparr>split_Documents := ?docs[i := dA2, j := dB2]\<rparr>)) =
            map doc_ID ?docs" using ids by simp
      show "map ?M (split_Documents (s1\<lparr>split_Documents := ?docs[i := dA2, j := dB2]\<rparr>)) =
            map ?M ?docs" using m by simp
      assume "\<forall>d\<in>set ?docs. doc_ID d = A \<or> doc_ID d = B \<longrightarrow> pagesInOrder h d"
      then show "s1\<lparr>split_Documents := ?docs[i := dA2, j := dB2]\<rparr> = s" by (rule tidy)
    qed
  qed
qed

theorem MovePages_round_trip_witness:
  "sortFunc_spec insertionSort \<and>
   snd (snd (MovePages insertionSort twoDocHeap twoDocSplit ''dA'' ''dB'' [''u''])) = None \<and>
   list_all (pagesInOrder twoDocHeap) (split_Documents twoDocSplit) \<and>
   (\<exists>h2. MovePages insertionSort
            (fst (MovePages insertionSort twoDocHeap twoDocSplit ''dA'' ''dB'' [''u'']))
            (fst (snd (MovePages insertionSort twoDocHeap twoDocSplit ''dA'' ''dB'' [''u''])))
            ''dB'' ''dA'' [''u''] = (h2, twoDocSplit, None))"
proof -
  let ?R = "MovePages insertionSort twoDocHeap twoDocSplit ''dA'' ''dB'' [''u'']"
  have ok: "snd (snd ?R) = None"
    by (simp add: MovePages_def RemovePages_def AddPages_def AssignToDocument_def IsAssigned_def
          Unassign_def updatePageNumbers_def insertionSort_def Let_def
          twoDocSplit_def docA_def docB_def twoDocHeap_def SplitStatusFinalized_def)
  then have r: "?R = (fst ?R, fst (snd ?R), None)"
    by (metis prod.collapse)
  have tidy: "list_all (pagesInOrder twoDocHeap) (split_Documents twoDocSplit)"
    by (simp add: pagesInOrder_def twoDocSplit_def docA_def docB_def twoDocHeap_def)
  then have t: "\<forall>d\<in>set (split_Documents twoDocSplit).
                 doc_ID d = ''dA'' \<or> doc_ID d = ''dB'' \<longrightarrow> pagesInOrder twoDocHeap d"
    by (simp add: list_all_iff)
  from MovePages_round_trip[OF insertionSort_spec r] t
  have "\<exists>h2. MovePages insertionSort (fst ?R) (fst (snd ?R)) ''dB'' ''dA'' [''u'']
              = (h2, twoDocSplit, None)"
    by blast
  with insertionSort_spec ok tidy show ?thesis by blast
qed


text \<open>
  C7 as stated fails for the range bounds. First input: Document \<open>dB\<close> carries empty bounds;
  both moves succeed and \<open>dB\<close> ends with \<open>StartPage = page_10.png\<close>, the bounds being
  recomputed on the way. Second input: two pages of \<open>dA\<close> share page number 1; the page moved
  out and back is appended behind the one that stayed, the insertion sort keeps that order,
  and \<open>StartPage\<close> of \<open>dA\<close> changes from \<open>page_1.png\<close> to \<open>page_01.png\<close>.
\<close>

theorem MovePages_round_trip_counterexample:
  "snd (snd (MovePages insertionSort twoDocHeap staleSplit ''dA'' ''dB'' [''u''])) = None \<and>
   snd (snd (MovePages insertionSort
               (fst (MovePages insertionSort twoDocHeap staleSplit ''dA'' ''dB'' [''u'']))
               (fst (snd (MovePages insertionSort twoDocHeap staleSplit ''dA'' ''dB'' [''u''])))
               ''dB'' ''dA'' [''u''])) = None \<and>
   map doc_StartPage (split_Documents staleSplit) = [''page_1.png'', []] \<and>
   map doc_StartPage (split_Documents (fst (snd (MovePages insertionSort
               (fst (MovePages insertionSort twoDocHeap staleSplit ''dA'' ''dB'' [''u'']))
               (fst (snd (MovePages insertionSort twoDocHeap staleSplit ''dA'' ''dB'' [''u''])))
               ''dB'' ''dA'' [''u'']))))
     = [''page_1.png'', ''page_10.png''] \<and>
   snd (snd (MovePages insertionSort tieHeap tieSplit ''dA'' ''dB'' [''u''])) = None \<and>
   snd (snd (MovePages insertionSort
               (fst (MovePages insertionSort tieHeap tieSplit ''dA'' ''dB'' [''u'']))
               (fst (snd (MovePages insertionSort tieHeap tieSplit ''dA'' ''dB'' [''u''])))
               ''dB'' ''dA'' [''u''])) = None \<and>
   map doc_StartPage (split_Documents tieSplit) = [''page_1.png'', ''page_10.png''] \<and>
   map doc_StartPage (split_Documents (fst (snd (MovePages insertionSort
               (fst (MovePages insertionSort tieHeap tieSplit ''dA'' ''dB'' [''u'']))
               (fst (snd (MovePages insertionSort tieHeap tieSplit ''dA'' ''dB'' [''u''])))
               ''dB'' ''dA'' [''u'']))))
     = [''page_01.png'', ''page_10.png'']"
  by (simp add: MovePages_def RemovePages_def AddPages_def AssignToDocument_def IsAssigned_def
        Unassign_def updatePageNumbers_def insertionSort_def Let_def
        staleSplit_def tieSplit_def tieHeap_def
        twoDocSplit_def docA_def docB_def twoDocHeap_def SplitStatusFinalized_def)

subsection \<open>The repository: auxiliary facts\<close>

lemma key_in_image: "k \<in> f ` A \<longleftrightarrow> (\<exists>x\<in>A. f x = k)"
  by force

lemma upsertPage_alt:
  "upsertPage new rows =
     (if pr_id new \<in> pr_id ` set rows
      then map (\<lambda>r. if pr_id r = pr_id new then new else r) rows
      else rows @ [new])"
proof -
  have "\<And>r::PageRow. pr_id r = pr_id new \<Longrightarrow>
          r\<lparr>pr_split_id := pr_split_id new, pr_document_id := pr_document_id new,
            pr_page_number := pr_page_number new, pr_url := pr_url new\<rparr> = new"
    by simp
  then have "map (\<lambda>r. if pr_id r = pr_id new
                     then r\<lparr>pr_split_id := pr_split_id new,
                            pr_document_id := pr_document_id new,
                            pr_page_number := pr_page_number new, pr_url := pr_url new\<rparr>
                     else r) rows = map (\<lambda>r. if pr_id r = pr_id new then new else r) rows"
    by (intro map_cong) auto
  then show ?thesis by (simp add: upsertPage_def list_ex_iff key_in_image)
qed

lemma upsertDocument_alt:
  "upsertDocument new rows =
     (if dr_id new \<in> dr_id ` set rows
      then map (\<lambda>r. if dr_id r = dr_id new then new else r) rows
      else rows @ [new])"
proof -
  have "\<And>r::DocumentRow. dr_id r = dr_id new \<Longrightarrow>
          r\<lparr>dr_split_id := dr_split_id new, dr_name := dr_name new,
                            dr_classification := dr_classification new,
                            dr_filename := dr_filename new,
                            dr_short_description := dr_short_description new,
                            dr_start_page := dr_start_page new,
                            dr_end_page := dr_end_page new\<rparr> = new"
    by simp
  then have "map (\<lambda>r. if dr_id r = dr_id new
                     then r\<lparr>dr_split_id := dr_split_id new, dr_name := dr_name new,
                            dr_classification := dr_classification new,
                            dr_filename := dr_filename new,
                            dr_short_description := dr_short_description new,
                            dr_start_page := dr_start_page new,
                            dr_end_page := dr_end_page new\<rparr>
                     else r) rows = map (\<lambda>r. if dr_id r = dr_id new then new else r) rows"
    by (intro map_cong) auto
  then show ?thesis by (simp add: upsertDocument_def list_ex_iff key_in_image)
qed

text \<open>A table after a run of upserts, for any key column.\<close>

lemma upsert_set:
  fixes key :: "'r \<Rightarrow> 'k"
  assumes "\<And>new rows. ups new rows =
             (if key new \<in> key ` set rows
              then map (\<lambda>r. if key r = key new then new else r) rows else rows @ [new])"
  shows "set (ups new rows) = {r \<in> set rows. key r \<noteq> key new} \<union> {new}"
proof (cases "key new \<in> key ` set rows")
  case True
  then obtain r0 where "r0 \<in> set rows" "key r0 = key new" by (auto simp: key_in_image)
  then show ?thesis unfolding assms using True by (auto simp: image_iff)
next
  case False
  then have "\<forall>r\<in>set rows. key r \<noteq> key new" by (auto simp: key_in_image)
  then show ?thesis unfolding assms using False by auto
qed

lemma upserts_subset:
  fixes key :: "'r \<Rightarrow> 'k"
  assumes alt: "\<And>new rows. ups new rows =
             (if key new \<in> key ` set rows
              then map (\<lambda>r. if key r = key new then new else r) rows else rows @ [new])"
  shows "set (foldl (\<lambda>t r. ups r t) T W) \<subseteq> {r \<in> set T. key r \<notin> key ` set W} \<union> set W"
proof (induction W arbitrary: T)
  case Nil then show ?case by simp
next
  case (Cons w W)
  have "set (foldl (\<lambda>t r. ups r t) (ups w T) W)
          \<subseteq> {r \<in> set (ups w T). key r \<notin> key ` set W} \<union> set W"
    by (rule Cons.IH)
  also have "\<dots> \<subseteq> {r \<in> set T. key r \<notin> key ` set (w # W)} \<union> set (w # W)"
    unfolding upsert_set[of ups key, OF alt] by auto
  finally show ?case by simp
qed

lemma upserts_keep:
  fixes key :: "'r \<Rightarrow> 'k"
  assumes alt: "\<And>new rows. ups new rows =
             (if key new \<in> key ` set rows
              then map (\<lambda>r. if key r = key new then new else r) rows else rows @ [new])"
  shows "r \<in> set T \<Longrightarrow> key r \<notin> key ` set W \<Longrightarrow> r \<in> set (foldl (\<lambda>t r. ups r t) T W)"
proof (induction W arbitrary: T)
  case Nil then show ?case by simp
next
  case (Cons w W)
  from Cons.prems have "r \<in> set (ups w T)"
    unfolding upsert_set[of ups key, OF alt] by auto
  moreover from Cons.prems have "key r \<notin> key ` set W" by auto
  ultimately show ?case using Cons.IH by simp
qed

lemma upserts_present:
  fixes key :: "'r \<Rightarrow> 'k"
  assumes alt: "\<And>new rows. ups new rows =
             (if key new \<in> key ` set rows
              then map (\<lambda>r. if key r = key new then new else r) rows else rows @ [new])"
  shows "x \<in> key ` set W \<Longrightarrow> \<exists>r\<in>set (foldl (\<lambda>t r. ups r t) T W). key r = x \<and> r \<in> set W"
proof (induction W arbitrary: T)
  case Nil then show ?case by simp
next
  case (Cons w W)
  show ?case
  proof (cases "x \<in> key ` set W")
    case True
    from Cons.IH[OF True, of "ups w T"] show ?thesis by auto
  next
    case False
    with Cons.prems have kw: "key w = x" by auto
    have "w \<in> set (ups w T)" unfolding upsert_set[of ups key, OF alt] by simp
    with False kw have "w \<in> set (foldl (\<lambda>t r. ups r t) (ups w T) W)"
      by (intro upserts_keep[of ups key, OF alt]) auto
    with kw show ?thesis by auto
  qed
qed

lemma upserts_distinct:
  fixes key :: "'r \<Rightarrow> 'k"
  assumes alt: "\<And>new rows. ups new rows =
             (if key new \<in> key ` set rows
              then map (\<lambda>r. if key r = key new then new else r) rows else rows @ [new])"
  shows "distinct (map key T) \<Longrightarrow> distinct (map key (foldl (\<lambda>t r. ups r t) T W))"
proof (induction W arbitrary: T)
  case Nil then show ?case by simp
next
  case (Cons w W)
  have "map key (ups w T) = (if key w \<in> key ` set T then map key T else map key T @ [key w])"
    unfolding alt by (auto simp: map_idI)
  then have "distinct (map key (ups w T))" using Cons.prems by auto
  from Cons.IH[OF this] show ?case by simp
qed

lemma foldl_deleteDocument:
  "foldl deleteDocument db ids =
     db\<lparr>db_documents := filter (\<lambda>r. dr_id r \<notin> set ids) (db_documents db),
        db_pages := filter (\<lambda>r. \<forall>x\<in>set ids. pr_document_id r \<noteq> Some x) (db_pages db)\<rparr>"
proof (induction ids arbitrary: db)
  case Nil then show ?case by simp
next
  case (Cons x ids)
  show ?case
    by (simp only: foldl_Cons Cons.IH) (simp add: deleteDocument_def)
qed

lemma foldl_deletePage:
  "foldl deletePage db ids = db\<lparr>db_pages := filter (\<lambda>r. pr_id r \<notin> set ids) (db_pages db)\<rparr>"
proof (induction ids arbitrary: db)
  case Nil then show ?case by simp
next
  case (Cons x ids)
  show ?case
    by (simp only: foldl_Cons Cons.IH) (simp add: deletePage_def)
qed

lemma foldl_savePage:
  "foldl (savePage h did) db as =
     db\<lparr>db_pages := foldl (\<lambda>t r. upsertPage r t) (db_pages db) (map (pageRow h did) as)\<rparr>"
proof (induction as arbitrary: db)
  case Nil then show ?case by simp
next
  case (Cons a as)
  show ?case by (simp only: foldl_Cons Cons.IH) (simp add: savePage_def)
qed

lemma saveDocument_eq:
  "saveDocument h db d =
     db\<lparr>db_documents := upsertDocument (documentRow d) (db_documents db),
        db_pages := foldl (\<lambda>t r. upsertPage r t) (db_pages db)
                      (map (pageRow h (Some (doc_ID d))) (doc_Pages d))\<rparr>"
  by (simp add: saveDocument_def foldl_savePage)

lemma foldl_saveDocument:
  "foldl (saveDocument h) db docs =
     db\<lparr>db_documents := foldl (\<lambda>t r. upsertDocument r t) (db_documents db)
                            (map documentRow docs),
        db_pages := foldl (\<lambda>t r. upsertPage r t) (db_pages db)
                      (concat (map (\<lambda>doc. map (pageRow h (Some (doc_ID doc))) (doc_Pages doc))
                                 docs))\<rparr>"
proof (induction docs arbitrary: db)
  case Nil then show ?case by simp
next
  case (Cons d docs)
  show ?case by (simp only: foldl_Cons Cons.IH) (simp add: saveDocument_eq)
qed

lemma Save_splits:
  "db_splits (Save h s db) =
     upsertSplit \<lparr>sr_id = split_ID s, sr_client_id = split_ClientID s,
                  sr_status = split_Status s, sr_created_at = split_CreatedAt s,
                  sr_updated_at = split_UpdatedAt s\<rparr> (db_splits db)"
  by (simp add: Save_def Let_def foldl_savePage foldl_saveDocument foldl_deletePage
        foldl_deleteDocument)

lemma Save_documents:
  "db_documents (Save h s db) =
     foldl (\<lambda>t r. upsertDocument r t)
       (filter (\<lambda>r. dr_id r \<notin> set (toDeleteDocIDs s db)) (db_documents db))
       (map documentRow (split_Documents s))"
  by (simp add: Save_def Let_def foldl_savePage foldl_saveDocument foldl_deletePage
        foldl_deleteDocument toDeleteDocIDs_def del: set_map)

lemma Save_pages:
  "db_pages (Save h s db) =
     foldl (\<lambda>t r. upsertPage r t)
       (filter (\<lambda>r. pr_id r \<notin> set (toDeletePageIDs h s db)) (pagesAfterDocumentDelete s db))
       (pagesWritten h s)"
  by (simp add: Save_def Let_def foldl_savePage foldl_saveDocument foldl_deletePage
        foldl_deleteDocument toDeleteDocIDs_def toDeletePageIDs_def pagesAfterDocumentDelete_def
        pagesWritten_def del: set_map)

lemma scanPages_spec:
  "scanPages h n rows = (h', n', as) \<Longrightarrow>
   n' = n + length rows \<and> as = [n..<n'] \<and> (\<forall>a<n. h' a = h a) \<and>
   map h' as = map pageOfRow rows"
proof (induction rows arbitrary: h n as)
  case Nil
  then show ?case by auto
next
  case (Cons r rows)
  from Cons.prems obtain as' where
    rec: "scanPages (h(n := pageOfRow r)) (Suc n) rows = (h', n', as')" and as: "as = n # as'"
    by (auto split: prod.splits)
  from Cons.IH[OF rec] have n': "n' = Suc n + length rows" and as': "as' = [Suc n..<n']"
    and old: "\<forall>a<Suc n. h' a = (h(n := pageOfRow r)) a"
    and new: "map h' as' = map pageOfRow rows" by auto
  have "n < n'" using n' by simp
  then have a1: "as = [n..<n']" using as as' by (simp add: upt_conv_Cons)
  have hn: "h' n = pageOfRow r" using old by simp
  have a2: "\<forall>a<n. h' a = h a" using old by auto
  have a3: "map h' as = map pageOfRow (r # rows)" using as new hn by simp
  have a4: "n' = n + length (r # rows)" using n' by simp
  from a1 a2 a3 a4 show ?case by blast
qed

lemma scanDocuments_spec:
  "scanDocuments db h n rows = (h', n', docs) \<Longrightarrow>
   n \<le> n' \<and> (\<forall>a<n. h' a = h a) \<and>
   list_all2 (\<lambda>r d. documentRow d = r \<and> (\<forall>a\<in>set (doc_Pages d). a < n') \<and>
                     map h' (doc_Pages d) = map pageOfRow (selectPages db (dr_id r))) rows docs"
proof (induction rows arbitrary: h n docs)
  case Nil
  then show ?case by auto
next
  case (Cons r rows)
  obtain h1 n1 pages where gp: "scanPages h n (selectPages db (dr_id r)) = (h1, n1, pages)"
    by (metis prod_cases3)
  obtain h2 n2 docs' where rec0: "scanDocuments db h1 n1 rows = (h2, n2, docs')"
    by (metis prod_cases3)
  let ?d = "\<lparr>doc_ID = dr_id r, doc_SplitID = dr_split_id r, doc_Name = dr_name r,
                 doc_Classification = dr_classification r, doc_Filename = dr_filename r,
                 doc_ShortDescription = dr_short_description r, doc_Pages = pages,
                 doc_StartPage = dr_start_page r, doc_EndPage = dr_end_page r\<rparr>"
  from Cons.prems gp rec0 have res: "h' = h2" "n' = n2" "docs = ?d # docs'"
    by (simp_all add: getPages_def)
  from rec0 res have rec: "scanDocuments db h1 n1 rows = (h', n', docs')" by simp
  from scanPages_spec[OF gp] have n1: "n1 = n + length (selectPages db (dr_id r))"
    and pages: "pages = [n..<n1]" and old1: "\<forall>a<n. h1 a = h a"
    and new1: "map h1 pages = map pageOfRow (selectPages db (dr_id r))" by auto
  from Cons.IH[OF rec] have le: "n1 \<le> n'" and old2: "\<forall>a<n1. h' a = h1 a"
    and rel: "list_all2 (\<lambda>r d. documentRow d = r \<and> (\<forall>a\<in>set (doc_Pages d). a < n') \<and>
                     map h' (doc_Pages d) = map pageOfRow (selectPages db (dr_id r))) rows docs'"
    by auto
  have "map h' pages = map h1 pages" using old2 pages by simp
  with new1 have b1: "map h' (doc_Pages ?d) = map pageOfRow (selectPages db (dr_id r))" by simp
  have b2: "documentRow ?d = r" by (simp add: documentRow_def)
  have b3: "\<forall>a\<in>set (doc_Pages ?d). a < n'" using pages le by auto
  have b4: "\<forall>a<n. h' a = h a" using old1 old2 n1 by auto
  have b5: "n \<le> n'" using n1 le by simp
  have "list_all2 (\<lambda>r d. documentRow d = r \<and> (\<forall>a\<in>set (doc_Pages d). a < n') \<and>
                     map h' (doc_Pages d) = map pageOfRow (selectPages db (dr_id r)))
          (r # rows) (?d # docs')"
    using b1 b2 b3 rel by simp
  with b4 b5 res(3) show ?case by blast
qed

lemma Get_None:
  "find (\<lambda>r. sr_id r = sid) (db_splits db) = None \<Longrightarrow> Get db h n sid = (h, n, None)"
  by (simp add: Get_def)

lemma Get_Some:
  assumes "find (\<lambda>r. sr_id r = sid) (db_splits db) = Some row"
  shows "\<exists>h' n' s2. Get db h n sid = (h', n', Some s2) \<and>
           split_ID s2 = sr_id row \<and> split_ClientID s2 = sr_client_id row \<and>
           split_Status s2 = sr_status row \<and> split_CreatedAt s2 = sr_created_at row \<and>
           split_UpdatedAt s2 = sr_updated_at row \<and> split_FinalizedAt s2 = None \<and>
           list_all2 (\<lambda>r d. documentRow d = r \<and>
                        map h' (doc_Pages d) = map pageOfRow (selectPages db (dr_id r)))
             (selectDocuments db sid) (split_Documents s2) \<and>
           map h' (split_UnassignedPages s2) = map pageOfRow (selectUnassignedPages db sid)"
proof -
  obtain h1 n1 docs where gd: "scanDocuments db h n (selectDocuments db sid) = (h1, n1, docs)"
    by (metis prod_cases3)
  obtain h2 n2 ups where gu: "scanPages h1 n1 (selectUnassignedPages db sid) = (h2, n2, ups)"
    by (metis prod_cases3)
  let ?s2 = "\<lparr>split_ID = sr_id row, split_ClientID = sr_client_id row,
               split_Status = sr_status row, split_Documents = docs,
               split_UnassignedPages = ups, split_CreatedAt = sr_created_at row,
               split_UpdatedAt = sr_updated_at row, split_FinalizedAt = None\<rparr>"
  have g: "Get db h n sid = (h2, n2, Some ?s2)"
    using assms gd gu by (simp add: Get_def getDocuments_def getUnassignedPages_def)
  from scanDocuments_spec[OF gd] have
    rel: "list_all2 (\<lambda>r d. documentRow d = r \<and> (\<forall>a\<in>set (doc_Pages d). a < n1) \<and>
                map h1 (doc_Pages d) = map pageOfRow (selectPages db (dr_id r)))
             (selectDocuments db sid) docs" by simp
  from scanPages_spec[OF gu] have old: "\<forall>a<n1. h2 a = h1 a"
    and new: "map h2 ups = map pageOfRow (selectUnassignedPages db sid)" by auto
  have rel2: "list_all2 (\<lambda>r d. documentRow d = r \<and>
                map h2 (doc_Pages d) = map pageOfRow (selectPages db (dr_id r)))
             (selectDocuments db sid) docs"
  proof (rule list_all2_mono[OF rel])
    fix r d
    assume a: "documentRow d = r \<and> (\<forall>a\<in>set (doc_Pages d). a < n1) \<and>
                map h1 (doc_Pages d) = map pageOfRow (selectPages db (dr_id r))"
    then have "\<forall>a\<in>set (doc_Pages d). h2 a = h1 a" using old by blast
    then have "map h2 (doc_Pages d) = map h1 (doc_Pages d)" by (intro map_cong) simp_all
    with a show "documentRow d = r \<and>
                map h2 (doc_Pages d) = map pageOfRow (selectPages db (dr_id r))" by simp
  qed
  show ?thesis
    apply (rule exI[of _ h2], rule exI[of _ n2], rule exI[of _ ?s2])
    using g rel2 new by simp
qed

lemma pageRow_ignores_DocumentID:
  "pageRow (\<lambda>a. (h a)\<lparr>page_DocumentID := v a\<rparr>) = pageRow h"
  by (simp add: pageRow_def fun_eq_iff)

lemma savePage_ignores_DocumentID:
  "savePage (\<lambda>a. (h a)\<lparr>page_DocumentID := v a\<rparr>) = savePage h"
  by (simp add: savePage_def fun_eq_iff pageRow_ignores_DocumentID)

lemma saveDocument_ignores_DocumentID:
  "saveDocument (\<lambda>a. (h a)\<lparr>page_DocumentID := v a\<rparr>) = saveDocument h"
  by (simp add: saveDocument_def fun_eq_iff savePage_ignores_DocumentID)

lemma Save_ignores_DocumentID:
  "Save (\<lambda>a. (h a)\<lparr>page_DocumentID := v a\<rparr>) s db = Save h s db"
  unfolding Save_def savePage_ignores_DocumentID saveDocument_ignores_DocumentID
  by simp

lemma owner_unique:
  assumes "distinct (map f (concat (map g docs)))" "d \<in> set docs" "d' \<in> set docs"
      and "a \<in> set (g d)" "a' \<in> set (g d')" "f a = f a'"
  shows "d' = d"
  using assms
proof (induction docs)
  case Nil then show ?case by simp
next
  case (Cons x docs)
  from Cons.prems(1) have dx: "distinct (map f (g x))"
    and dr: "distinct (map f (concat (map g docs)))"
    and disj: "f ` set (g x) \<inter> f ` set (concat (map g docs)) = {}"
    by auto
  show ?case
  proof (cases "d = x")
    case True
    show ?thesis
    proof (cases "d' = x")
      case True
      with \<open>d = x\<close> show ?thesis by simp
    next
      case False
      with Cons.prems(3) have "d' \<in> set docs" by simp
      with Cons.prems(5) have "f a' \<in> f ` set (concat (map g docs))" by auto
      moreover from True Cons.prems(4) have "f a \<in> f ` set (g x)" by auto
      ultimately show ?thesis using disj Cons.prems(6) by auto
    qed
  next
    case False
    with Cons.prems(2) have din: "d \<in> set docs" by simp
    show ?thesis
    proof (cases "d' = x")
      case True
      from din Cons.prems(4) have "f a \<in> f ` set (concat (map g docs))" by auto
      moreover from True Cons.prems(5) have "f a' \<in> f ` set (g x)" by auto
      ultimately show ?thesis using disj Cons.prems(6) by auto
    next
      case False
      with Cons.prems(3) have "d' \<in> set docs" by simp
      from Cons.IH[OF dr din this Cons.prems(4,5,6)] show ?thesis .
    qed
  qed
qed

lemma list_all2_setD2:
  "list_all2 P xs ys \<Longrightarrow> y \<in> set ys \<Longrightarrow> \<exists>x\<in>set xs. P x y"
  by (induction rule: list_all2_induct) auto

lemma pagesWritten_cases:
  assumes "r \<in> set (pagesWritten h s)"
  shows "(\<exists>d\<in>set (split_Documents s). \<exists>a\<in>set (doc_Pages d). r = pageRow h (Some (doc_ID d)) a) \<or>
         (\<exists>a\<in>set (split_UnassignedPages s). r = pageRow h None a)"
  using assms by (auto simp: pagesWritten_def)

lemma pageRow_sel [simp]:
  "pr_id (pageRow h x a) = page_ID (h a)"
  "pr_split_id (pageRow h x a) = page_SplitID (h a)"
  "pr_document_id (pageRow h x a) = x"
  "pr_page_number (pageRow h x a) = page_PageNumber (h a)"
  "pr_url (pageRow h x a) = page_URL (h a)"
  by (simp_all add: pageRow_def)

lemma Save_pages_subset:
  "set (db_pages (Save h s db)) \<subseteq>
     {r \<in> set (db_pages db). pr_id r \<notin> pr_id ` set (pagesWritten h s)} \<union> set (pagesWritten h s)"
proof -
  let ?T = "filter (\<lambda>r. pr_id r \<notin> set (toDeletePageIDs h s db)) (pagesAfterDocumentDelete s db)"
  have "set (db_pages (Save h s db)) \<subseteq>
          {r \<in> set ?T. pr_id r \<notin> pr_id ` set (pagesWritten h s)} \<union> set (pagesWritten h s)"
    unfolding Save_pages by (rule upserts_subset[of upsertPage pr_id, OF upsertPage_alt])
  moreover have "set ?T \<subseteq> set (db_pages db)" by (auto simp: pagesAfterDocumentDelete_def)
  ultimately show ?thesis by blast
qed

lemma Save_pages_present:
  assumes "x \<in> pr_id ` set (pagesWritten h s)"
  shows "\<exists>r\<in>set (db_pages (Save h s db)). pr_id r = x \<and> r \<in> set (pagesWritten h s)"
  unfolding Save_pages
  by (rule upserts_present[of upsertPage pr_id, OF upsertPage_alt assms])

lemma document_page_written:
  assumes "d \<in> set (split_Documents s)" "a \<in> set (doc_Pages d)"
  shows "pageRow h (Some (doc_ID d)) a \<in> set (pagesWritten h s)"
  using assms by (auto simp: pagesWritten_def)

lemma Save_document_page_row:
  assumes d: "d \<in> set (split_Documents s)" and a: "a \<in> set (doc_Pages d)"
      and np: "page_ID (h a) \<notin> set (map (\<lambda>b. page_ID (h b)) (split_UnassignedPages s))"
  shows "(\<exists>r\<in>set (db_pages (Save h s db)). pr_id r = page_ID (h a)) \<and>
         (\<forall>r\<in>set (db_pages (Save h s db)). pr_id r = page_ID (h a) \<longrightarrow>
            (\<exists>d'\<in>set (split_Documents s).
               pr_document_id r = Some (doc_ID d') \<and>
               (\<exists>a'\<in>set (doc_Pages d'). page_ID (h a') = page_ID (h a)) \<and>
               (singleOwnership h s \<longrightarrow> d' = d)))"
proof (intro conjI ballI impI)
  have "pr_id (pageRow h (Some (doc_ID d)) a) \<in> pr_id ` set (pagesWritten h s)"
    using document_page_written[OF d a, of h] by (rule imageI)
  then have w: "page_ID (h a) \<in> pr_id ` set (pagesWritten h s)" by simp
  from Save_pages_present[OF w, of db]
  show "\<exists>r\<in>set (db_pages (Save h s db)). pr_id r = page_ID (h a)" by blast
  fix r
  assume r: "r \<in> set (db_pages (Save h s db))" and rid: "pr_id r = page_ID (h a)"
  from r Save_pages_subset[of h s db] rid w have "r \<in> set (pagesWritten h s)" by auto
  from pagesWritten_cases[OF this]
  show "\<exists>d'\<in>set (split_Documents s).
          pr_document_id r = Some (doc_ID d') \<and>
          (\<exists>a'\<in>set (doc_Pages d'). page_ID (h a') = page_ID (h a)) \<and>
          (singleOwnership h s \<longrightarrow> d' = d)"
  proof
    assume "\<exists>d'\<in>set (split_Documents s). \<exists>a'\<in>set (doc_Pages d'). r = pageRow h (Some (doc_ID d')) a'"
    then obtain d' a' where d': "d' \<in> set (split_Documents s)" and a': "a' \<in> set (doc_Pages d')"
      and req: "r = pageRow h (Some (doc_ID d')) a'" by blast
    from req rid have ida: "page_ID (h a') = page_ID (h a)" by simp
    have so: "d' = d" if "singleOwnership h s"
    proof -
      from that have "distinct (map (\<lambda>a. page_ID (h a)) (concat (map doc_Pages (split_Documents s))))"
        by (simp add: singleOwnership_def allPages_def)
      from owner_unique[OF this d d' a a'] ida show ?thesis by simp
    qed
    have "pr_document_id r = Some (doc_ID d')" using req by simp
    with d' a' ida so show ?thesis by blast
  next
    assume "\<exists>a'\<in>set (split_UnassignedPages s). r = pageRow h None a'"
    then obtain a' where "a' \<in> set (split_UnassignedPages s)" "r = pageRow h None a'" by blast
    with rid have "page_ID (h a) \<in> set (map (\<lambda>b. page_ID (h b)) (split_UnassignedPages s))"
      by (simp add: key_in_image) (metis pageRow_sel(1))
    with np show ?thesis by simp
  qed
qed

lemma Get_document_pages:
  assumes g: "Get db hx n sid = (hy, ny, Some s2)"
      and d: "d \<in> set (split_Documents s2)" and a: "a \<in> set (doc_Pages d)"
  shows "\<exists>r\<in>set (db_pages db). hy a = pageOfRow r \<and> pr_document_id r = Some (doc_ID d)"
proof -
  from g obtain row where f: "find (\<lambda>r. sr_id r = sid) (db_splits db) = Some row"
    by (cases "find (\<lambda>r. sr_id r = sid) (db_splits db)") (simp_all add: Get_def)
  from Get_Some[OF f, of hx n] obtain h' n' s' where
    g': "Get db hx n sid = (h', n', Some s')" and
    rel': "list_all2 (\<lambda>r d. documentRow d = r \<and>
                        map h' (doc_Pages d) = map pageOfRow (selectPages db (dr_id r)))
             (selectDocuments db sid) (split_Documents s')"
    by blast
  from g g' have "h' = hy" "s' = s2" by simp_all
  with rel' have rel: "list_all2 (\<lambda>r d. documentRow d = r \<and>
                        map hy (doc_Pages d) = map pageOfRow (selectPages db (dr_id r)))
             (selectDocuments db sid) (split_Documents s2)"
    by simp
  from list_all2_setD2[OF rel d] obtain r where
    dr: "documentRow d = r" and m: "map hy (doc_Pages d) = map pageOfRow (selectPages db (dr_id r))"
    by blast
  from dr have id: "dr_id r = doc_ID d" by (auto simp: documentRow_def)
  from a have "hy a \<in> set (map hy (doc_Pages d))" by simp
  with m id have "hy a \<in> pageOfRow ` set (selectPages db (doc_ID d))" by simp
  then obtain r' where r': "r' \<in> set (selectPages db (doc_ID d))" and e: "hy a = pageOfRow r'"
    by blast
  from r' have "r' \<in> set (db_pages db)" "pr_document_id r' = Some (doc_ID d)"
    by (simp_all add: selectPages_def)
  with e show ?thesis by blast
qed

lemma Save_twoDocSplit: "Save twoDocHeap twoDocSplit emptyDB = twoDocDB"
  by (simp add: Save_def emptyDB_def twoDocDB_def twoDocSplit_def docA_def docB_def twoDocHeap_def
     upsertSplit_def upsertDocument_def upsertPage_def saveDocument_def savePage_def pageRow_def
     documentRow_def allPages_def deleteDocument_def deletePage_def)

lemma Get_twoDocDB: "Get twoDocDB (\<lambda>a. noPage) 0 ''s1'' = (twoDocHeap, 3, Some twoDocSplit)"
  by (simp add: Get_def twoDocDB_def getDocuments_def getUnassignedPages_def getPages_def
      selectDocuments_def selectPages_def selectUnassignedPages_def pageOfRow_def
      twoDocSplit_def docA_def docB_def twoDocHeap_def sqlText_def less_char_def
      less_eq_char_def numeral_2_eq_2 numeral_3_eq_3)

subsection \<open>Assignment is list membership\<close>

text \<open>
  C10. \<open>Save\<close> does not read \<open>Page.DocumentID\<close>: whatever these fields hold, it writes the same
  tables. For a page of a Document's \<open>Pages\<close> list whose ID is not in the unassigned pool, the
  page table after \<open>Save\<close> has a row with the page's ID, and every row with that ID carries as
  \<open>document_id\<close> the ID of a Document of the Split whose \<open>Pages\<close> list holds a page with that ID;
  under single ownership this is the Document itself. In every Split returned by \<open>Get\<close>, every
  page of every Document's \<open>Pages\<close> list has \<open>DocumentID = nil\<close>, so \<open>IsAssigned\<close> is false,
  while the row it was read from has the Document's ID as \<open>document_id\<close>.
\<close>

theorem assignment_by_membership:
  "Save (\<lambda>a. (h a)\<lparr>page_DocumentID := v a\<rparr>) s db = Save h s db \<and>
   (\<forall>d\<in>set (split_Documents s). \<forall>a\<in>set (doc_Pages d).
       page_ID (h a) \<notin> set (map (\<lambda>b. page_ID (h b)) (split_UnassignedPages s)) \<longrightarrow>
       (\<exists>r\<in>set (db_pages (Save h s db)). pr_id r = page_ID (h a)) \<and>
       (\<forall>r\<in>set (db_pages (Save h s db)). pr_id r = page_ID (h a) \<longrightarrow>
          (\<exists>d'\<in>set (split_Documents s).
             pr_document_id r = Some (doc_ID d') \<and>
             (\<exists>a'\<in>set (doc_Pages d'). page_ID (h a') = page_ID (h a)) \<and>
             (singleOwnership h s \<longrightarrow> d' = d)))) \<and>
   (Get db hx n sid = (hy, ny, Some s2) \<longrightarrow>
       (\<forall>d\<in>set (split_Documents s2). \<forall>a\<in>set (doc_Pages d).
           page_DocumentID (hy a) = None \<and> \<not> IsAssigned (hy a) \<and>
           (\<exists>r\<in>set (db_pages db).
               pr_id r = page_ID (hy a) \<and> pr_document_id r = Some (doc_ID d))))"
proof (intro conjI impI ballI)
  show "Save (\<lambda>a. (h a)\<lparr>page_DocumentID := v a\<rparr>) s db = Save h s db"
    by (rule Save_ignores_DocumentID)
next
  fix d a
  assume da: "d \<in> set (split_Documents s)" "a \<in> set (doc_Pages d)"
    "page_ID (h a) \<notin> set (map (\<lambda>b. page_ID (h b)) (split_UnassignedPages s))"
  from Save_document_page_row[OF da, of db]
  show "\<exists>r\<in>set (db_pages (Save h s db)). pr_id r = page_ID (h a)" by (rule conjunct1)
  fix r
  assume "r \<in> set (db_pages (Save h s db))" "pr_id r = page_ID (h a)"
  with Save_document_page_row[OF da, of db]
  show "\<exists>d'\<in>set (split_Documents s).
             pr_document_id r = Some (doc_ID d') \<and>
             (\<exists>a'\<in>set (doc_Pages d'). page_ID (h a') = page_ID (h a)) \<and>
             (singleOwnership h s \<longrightarrow> d' = d)" by blast
next
  fix d a
  assume g: "Get db hx n sid = (hy, ny, Some s2)"
    and d: "d \<in> set (split_Documents s2)" and a: "a \<in> set (doc_Pages d)"
  from Get_document_pages[OF g d a] obtain r where
    r: "r \<in> set (db_pages db)" "hy a = pageOfRow r" "pr_document_id r = Some (doc_ID d)"
    by blast
  then have e: "page_DocumentID (hy a) = None" "page_ID (hy a) = pr_id r"
    by (simp_all add: pageOfRow_def)
  show "page_DocumentID (hy a) = None" by (rule e(1))
  show "\<not> IsAssigned (hy a)" using e(1) by (simp add: IsAssigned_def)
  show "\<exists>r\<in>set (db_pages db). pr_id r = page_ID (hy a) \<and> pr_document_id r = Some (doc_ID d)"
    using r e by auto
qed

theorem assignment_by_membership_witness:
  "Save (\<lambda>a. (twoDocHeap a)\<lparr>page_DocumentID := Some ''zz''\<rparr>) twoDocSplit emptyDB =
     Save twoDocHeap twoDocSplit emptyDB \<and>
   docB \<in> set (split_Documents twoDocSplit) \<and> 2 \<in> set (doc_Pages docB) \<and>
   list_ex (\<lambda>r. pr_id r = page_ID (twoDocHeap 2))
     (db_pages (Save twoDocHeap twoDocSplit emptyDB)) \<and>
   list_all (\<lambda>r. pr_document_id r = Some (doc_ID docB))
     (filter (\<lambda>r. pr_id r = page_ID (twoDocHeap 2))
        (db_pages (Save twoDocHeap twoDocSplit emptyDB))) \<and>
   Get (Save twoDocHeap twoDocSplit emptyDB) (\<lambda>a. noPage) 0 ''s1'' =
     (twoDocHeap, 3, Some twoDocSplit) \<and>
   page_DocumentID (twoDocHeap 2) = None \<and> \<not> IsAssigned (twoDocHeap 2) \<and>
   list_ex (\<lambda>r. pr_id r = page_ID (twoDocHeap 2) \<and> pr_document_id r = Some (doc_ID docB))
     (db_pages (Save twoDocHeap twoDocSplit emptyDB))"
proof -
  let ?db = "Save twoDocHeap twoDocSplit emptyDB"
  note T = assignment_by_membership[where h = twoDocHeap and v = "\<lambda>a. Some ''zz''"
             and s = twoDocSplit and db = emptyDB]
  note U = assignment_by_membership[where db = ?db and hx = "\<lambda>a. noPage" and n = 0
             and sid = "''s1''" and hy = twoDocHeap and ny = 3 and ?s2.0 = twoDocSplit]
  have d: "docB \<in> set (split_Documents twoDocSplit)" by (simp add: twoDocSplit_def)
  have a: "2 \<in> set (doc_Pages docB)" by (simp add: docB_def)
  have np: "page_ID (twoDocHeap 2) \<notin>
              set (map (\<lambda>b. page_ID (twoDocHeap b)) (split_UnassignedPages twoDocSplit))"
    by (simp add: twoDocSplit_def)
  have so: "singleOwnership twoDocHeap twoDocSplit"
    by (simp add: singleOwnership_def allPages_def twoDocSplit_def docA_def docB_def twoDocHeap_def)
  have g: "Get ?db (\<lambda>a. noPage) 0 ''s1'' = (twoDocHeap, 3, Some twoDocSplit)"
    by (simp only: Save_twoDocSplit Get_twoDocDB)
  from T have c1: "Save (\<lambda>a. (twoDocHeap a)\<lparr>page_DocumentID := Some ''zz''\<rparr>) twoDocSplit emptyDB = ?db"
    by (rule conjunct1)
  from T d a np have c2: "\<exists>r\<in>set (db_pages ?db). pr_id r = page_ID (twoDocHeap 2)"
    by blast
  from T d a np so have c3: "\<forall>r\<in>set (db_pages ?db). pr_id r = page_ID (twoDocHeap 2) \<longrightarrow>
      pr_document_id r = Some (doc_ID docB)"
    by blast
  from U g d a have c4: "page_DocumentID (twoDocHeap 2) = None \<and> \<not> IsAssigned (twoDocHeap 2) \<and>
      (\<exists>r\<in>set (db_pages ?db). pr_id r = page_ID (twoDocHeap 2) \<and>
           pr_document_id r = Some (doc_ID docB))"
    by blast
  from c2 have c2': "list_ex (\<lambda>r. pr_id r = page_ID (twoDocHeap 2)) (db_pages ?db)"
    by (simp only: list_ex_iff)
  from c3 have c3': "list_all (\<lambda>r. pr_document_id r = Some (doc_ID docB))
       (filter (\<lambda>r. pr_id r = page_ID (twoDocHeap 2)) (db_pages ?db))"
    unfolding list_all_iff by simp
  from c4 have c4': "list_ex (\<lambda>r. pr_id r = page_ID (twoDocHeap 2) \<and>
       pr_document_id r = Some (doc_ID docB)) (db_pages ?db)"
    by (simp only: list_ex_iff)
  from c1 d a c2' c3' g c4 c4' show ?thesis by blast
qed

end
